theory Spec2Isabelle
  imports Complex_Main "HOL-Library.Sublist" "HOL-Library.AList"
begin

section \<open>Python values and exceptions\<close>

text \<open>
  A float is a binary64 value: a sign bit with the magnitude as a rational number, an
  infinity with its sign, or a NaN. \<open>Finite True 0\<close> is \<open>-0.0\<close>.
\<close>

datatype pyfloat = Finite bool rat | Infinite bool | NaN

text \<open>
  The scalar values the parser produces and the containers the type check knows.
  A string is a sequence of code points below 256.
\<close>

datatype pyval =
    PNone
  | PBool bool
  | PInt int
  | PFloat pyfloat
  | PStr string
  | PList "pyval list"
  | PDict "(string \<times> pyval) list"

text \<open>
  Exception classes. \<open>SystemExit\<close>, \<open>KeyboardInterrupt\<close> and \<open>GeneratorExit\<close> derive
  from \<open>BaseException\<close> only, so \<open>except Exception\<close> does not catch them.
\<close>

datatype exc_class =
    ValueError
  | RuntimeError
  | TypeError
  | OtherException string
  | SystemExit
  | KeyboardInterrupt
  | GeneratorExit

text \<open>\<open>PyExc c m\<close>: an exception object of class \<open>c\<close> with \<open>str(e) = m\<close>.\<close>

datatype pyexc = PyExc exc_class string

fun is_Exception :: "exc_class \<Rightarrow> bool" where
  "is_Exception SystemExit = False"
| "is_Exception KeyboardInterrupt = False"
| "is_Exception GeneratorExit = False"
| "is_Exception _ = True"

fun exc_str :: "pyexc \<Rightarrow> string" where
  "exc_str (PyExc c m) = m"

fun caught_by_except_Exception :: "pyexc \<Rightarrow> bool" where
  "caught_by_except_Exception (PyExc c m) = is_Exception c"

text \<open>Truthiness, as \<open>not x\<close> tests it.\<close>

fun truthy :: "pyval \<Rightarrow> bool" where
  "truthy PNone = False"
| "truthy (PBool b) = b"
| "truthy (PInt i) = (i \<noteq> 0)"
| "truthy (PFloat f) = (case f of Finite _ q \<Rightarrow> q \<noteq> 0 | _ \<Rightarrow> True)"
| "truthy (PStr s) = (s \<noteq> [])"
| "truthy (PList xs) = (xs \<noteq> [])"
| "truthy (PDict kvs) = (kvs \<noteq> [])"

section \<open>String operations of the Python library\<close>

definition py_whitespace :: "char list" where
  "py_whitespace =
     [CHR 0x09, CHR 0x0A, CHR 0x0B, CHR 0x0C, CHR 0x0D, CHR 0x1C, CHR 0x1D, CHR 0x1E,
      CHR 0x1F, CHR 0x20, CHR 0x85, CHR 0xA0]"

definition py_isspace :: "char \<Rightarrow> bool" where
  "py_isspace c = (c \<in> set py_whitespace)"

text \<open>\<open>str.strip()\<close>\<close>

definition strip :: "string \<Rightarrow> string" where
  "strip s = rev (dropWhile py_isspace (rev (dropWhile py_isspace s)))"

definition upper_chars :: "char list" where
  "upper_chars = ''ABCDEFGHIJKLMNOPQRSTUVWXYZ'' @
     [CHR 0xC0, CHR 0xC1, CHR 0xC2, CHR 0xC3, CHR 0xC4, CHR 0xC5, CHR 0xC6, CHR 0xC7,
      CHR 0xC8, CHR 0xC9, CHR 0xCA, CHR 0xCB, CHR 0xCC, CHR 0xCD, CHR 0xCE, CHR 0xCF,
      CHR 0xD0, CHR 0xD1, CHR 0xD2, CHR 0xD3, CHR 0xD4, CHR 0xD5, CHR 0xD6,
      CHR 0xD8, CHR 0xD9, CHR 0xDA, CHR 0xDB, CHR 0xDC, CHR 0xDD, CHR 0xDE]"

definition lower_chars :: "char list" where
  "lower_chars = ''abcdefghijklmnopqrstuvwxyz'' @
     [CHR 0xE0, CHR 0xE1, CHR 0xE2, CHR 0xE3, CHR 0xE4, CHR 0xE5, CHR 0xE6, CHR 0xE7,
      CHR 0xE8, CHR 0xE9, CHR 0xEA, CHR 0xEB, CHR 0xEC, CHR 0xED, CHR 0xEE, CHR 0xEF,
      CHR 0xF0, CHR 0xF1, CHR 0xF2, CHR 0xF3, CHR 0xF4, CHR 0xF5, CHR 0xF6,
      CHR 0xF8, CHR 0xF9, CHR 0xFA, CHR 0xFB, CHR 0xFC, CHR 0xFD, CHR 0xFE]"

definition lower_char :: "char \<Rightarrow> char" where
  "lower_char c = (case map_of (zip upper_chars lower_chars) c of Some l \<Rightarrow> l | None \<Rightarrow> c)"

text \<open>\<open>str.lower()\<close>\<close>

definition lower :: "string \<Rightarrow> string" where
  "lower s = map lower_char s"

text \<open>\<open>sep.join(xs)\<close>\<close>

fun join :: "string \<Rightarrow> string list \<Rightarrow> string" where
  "join sep [] = []"
| "join sep [x] = x"
| "join sep (x # y # ys) = x @ sep @ join sep (y # ys)"

text \<open>
  The whitespace \<open>int()\<close> and \<open>float()\<close> skip around a literal: the ASCII whitespace
  of C and the whitespace beyond ASCII, but not the separators \<open>0x1C\<close> to \<open>0x1F\<close> that
  \<open>str.strip()\<close> removes.
\<close>

definition num_whitespace :: "char list" where
  "num_whitespace = [CHR 0x09, CHR 0x0A, CHR 0x0B, CHR 0x0C, CHR 0x0D, CHR 0x20, CHR 0x85, CHR 0xA0]"

definition num_isspace :: "char \<Rightarrow> bool" where
  "num_isspace c = (c \<in> set num_whitespace)"

definition num_strip :: "string \<Rightarrow> string" where
  "num_strip s = rev (dropWhile num_isspace (rev (dropWhile num_isspace s)))"

definition digit_val :: "char \<Rightarrow> nat option" where
  "digit_val c = map_of (zip ''0123456789'' [0, 1, 2, 3, 4, 5, 6, 7, 8, 9]) c"

text \<open>
  A run of decimal digits in which single underscores may stand between two digits,
  as \<open>int()\<close> and \<open>float()\<close> accept it; the result is the list of digit values.
\<close>

fun digitpart :: "string \<Rightarrow> nat list option" where
  "digitpart [] = None"
| "digitpart [c] = map_option (\<lambda>d. [d]) (digit_val c)"
| "digitpart (c # u # cs) =
     (case digit_val c of
        None \<Rightarrow> None
      | Some d \<Rightarrow>
          if u = CHR ''_'' then map_option ((#) d) (digitpart cs)
          else map_option ((#) d) (digitpart (u # cs)))"

definition digits_value :: "nat list \<Rightarrow> nat" where
  "digits_value ds = foldl (\<lambda>a d. 10 * a + d) 0 ds"

text \<open>An optional sign in front of \<open>s\<close>: the sign factor and the rest.\<close>

fun split_sign :: "string \<Rightarrow> int \<times> string" where
  "split_sign [] = (1, [])"
| "split_sign (c # cs) =
     (if c = CHR ''-'' then (- 1, cs) else if c = CHR ''+'' then (1, cs) else (1, c # cs))"

text \<open>The default of \<open>sys.get_int_max_str_digits()\<close>.\<close>

definition int_max_str_digits :: nat where
  "int_max_str_digits = 4300"

text \<open>
  \<open>int(s)\<close> in base 10; \<open>None\<close> is \<open>ValueError\<close>, which a literal of more digits than
  the limit raises too.
\<close>

definition py_int :: "string \<Rightarrow> int option" where
  "py_int s =
     (case split_sign (num_strip s) of
        (sg, body) \<Rightarrow>
          (case digitpart body of
             None \<Rightarrow> None
           | Some ds \<Rightarrow>
               if int_max_str_digits < length ds then None
               else Some (sg * int (digits_value ds))))"

text \<open>Powers of two with an integer exponent.\<close>

definition pow2 :: "int \<Rightarrow> rat" where
  "pow2 e = (if 0 \<le> e then 2 ^ nat e else 1 / 2 ^ nat (- e))"

text \<open>The number of binary digits of \<open>n\<close>.\<close>

fun bit_len :: "nat \<Rightarrow> nat" where
  "bit_len n = (if n = 0 then 0 else Suc (bit_len (n div 2)))"

declare bit_len.simps [simp del]

text \<open>For \<open>q > 0\<close>, the integer \<open>e\<close> with \<open>2 ^ e \<le> q < 2 ^ (e + 1)\<close>.\<close>

definition floor_log2 :: "rat \<Rightarrow> int" where
  "floor_log2 q =
     (if 1 \<le> q then int (bit_len (nat \<lfloor>q\<rfloor>)) - 1
      else - int (bit_len (nat (\<lceil>1 / q\<rceil> - 1))))"

text \<open>Rounding to the nearest integer, a tie to the even one.\<close>

definition round_half_even :: "rat \<Rightarrow> int" where
  "round_half_even x =
     (let f = \<lfloor>x\<rfloor>; d = x - of_int f
      in if d < 1 / 2 then f else if 1 / 2 < d then f + 1 else if even f then f else f + 1)"

text \<open>
  The binary64 value nearest to the magnitude \<open>q \<ge> 0\<close> with the sign \<open>neg\<close>, as the
  correctly rounded conversion of \<open>float()\<close> gives it: 53 bits of precision, exponents
  from \<open>-1022\<close> (below which the spacing stays \<open>2 ^ -1074\<close>) to \<open>1023\<close>, a tie to the even
  neighbour, infinity from \<open>2 ^ 1024\<close> on.
\<close>

definition round64 :: "bool \<Rightarrow> rat \<Rightarrow> pyfloat" where
  "round64 neg q =
     (if q = 0 then Finite neg 0
      else
        (let e = max (floor_log2 q) (- 1022);
             ulp = pow2 (e - 52);
             v = of_int (round_half_even (q / ulp)) * ulp
         in if pow2 1024 \<le> v then Infinite neg else Finite neg v))"

definition pow10 :: "int \<Rightarrow> rat" where
  "pow10 e = (if 0 \<le> e then 10 ^ nat e else 1 / 10 ^ nat (- e))"

definition opt_digitpart :: "string \<Rightarrow> nat list option" where
  "opt_digitpart s = (if s = [] then Some [] else digitpart s)"

definition is_e :: "char \<Rightarrow> bool" where
  "is_e c = (c = CHR ''e'' \<or> c = CHR ''E'')"

text \<open>The exponent of a float literal: empty, or \<open>e\<close> with an optional sign and digits.\<close>

definition float_exponent :: "string \<Rightarrow> int option" where
  "float_exponent s =
     (case s of
        [] \<Rightarrow> Some 0
      | c # cs \<Rightarrow>
          (case split_sign cs of
             (sg, ds) \<Rightarrow> map_option (\<lambda>xs. sg * int (digits_value xs)) (digitpart ds)))"

text \<open>
  \<open>float(s)\<close> for a string that contains a dot, the only strings \<open>_parse_value\<close> hands
  to it (\<open>inf\<close> and \<open>nan\<close> have no dot): optional sign, digits, the dot, digits, an
  optional exponent, with a digit on at least one side of the dot. \<open>None\<close> is
  \<open>ValueError\<close>.
\<close>

definition py_float :: "string \<Rightarrow> pyfloat option" where
  "py_float s =
     (case split_sign (num_strip s) of
        (sg, body) \<Rightarrow>
          let ip = takeWhile (\<lambda>c. c \<noteq> CHR ''.'') body;
              rest = drop 1 (dropWhile (\<lambda>c. c \<noteq> CHR ''.'') body);
              fp = takeWhile (\<lambda>c. \<not> is_e c) rest;
              ex = dropWhile (\<lambda>c. \<not> is_e c) rest
          in if CHR ''.'' \<notin> set body \<or> (ip = [] \<and> fp = []) then None
             else
               (case (opt_digitpart ip, opt_digitpart fp, float_exponent ex) of
                  (Some ids, Some fds, Some e) \<Rightarrow>
                    Some (round64 (sg < 0)
                           (of_nat (digits_value (ids @ fds)) * pow10 (e - int (length fds))))
                | _ \<Rightarrow> None))"

section \<open>shlex.split\<close>

text \<open>
  The tokenizer of the Python standard library in the mode \<open>shlex.split\<close> uses:
  POSIX rules, splitting on whitespace only, no comments. The states are those of
  \<open>shlex.read_token\<close>: between tokens, inside a word, inside a quotation (with its quote
  character), and after a backslash (inside double quotes or not).
\<close>

datatype shstate = SSpace | SWord | SQuote char | SEscape bool

definition sh_whitespace :: "char \<Rightarrow> bool" where
  "sh_whitespace c = (c \<in> set [CHR '' '', CHR 0x09, CHR 0x0D, CHR 0x0A])"

definition sh_quote :: "char \<Rightarrow> bool" where
  "sh_quote c = (c = CHR 0x27 \<or> c = CHR 0x22)"

definition sh_escape :: "char \<Rightarrow> bool" where
  "sh_escape c = (c = CHR 0x5C)"

definition emit :: "string \<Rightarrow> pyexc + string list \<Rightarrow> pyexc + string list" where
  "emit tok r = (case r of Inl e \<Rightarrow> Inl e | Inr ts \<Rightarrow> Inr (tok # ts))"

fun shlex_run :: "shstate \<Rightarrow> string \<Rightarrow> bool \<Rightarrow> string \<Rightarrow> pyexc + string list" where
  "shlex_run SSpace tok quoted [] = (if \<not> quoted \<and> tok = [] then Inr [] else Inr [tok])"
| "shlex_run SSpace tok quoted (c # cs) =
     (if sh_whitespace c then
        (if tok \<noteq> [] \<or> quoted then emit tok (shlex_run SSpace [] False cs)
         else shlex_run SSpace tok quoted cs)
      else if sh_escape c then shlex_run (SEscape False) tok quoted cs
      else if sh_quote c then shlex_run (SQuote c) tok True cs
      else shlex_run SWord [c] quoted cs)"
| "shlex_run SWord tok quoted [] = (if \<not> quoted \<and> tok = [] then Inr [] else Inr [tok])"
| "shlex_run SWord tok quoted (c # cs) =
     (if sh_whitespace c then
        (if tok \<noteq> [] \<or> quoted then emit tok (shlex_run SSpace [] False cs)
         else shlex_run SSpace tok quoted cs)
      else if sh_quote c then shlex_run (SQuote c) tok True cs
      else if sh_escape c then shlex_run (SEscape False) tok quoted cs
      else shlex_run SWord (tok @ [c]) quoted cs)"
| "shlex_run (SQuote q) tok quoted [] = Inl (PyExc ValueError ''No closing quotation'')"
| "shlex_run (SQuote q) tok quoted (c # cs) =
     (if c = q then shlex_run SWord tok True cs
      else if sh_escape c \<and> q = CHR 0x22 then shlex_run (SEscape True) tok True cs
      else shlex_run (SQuote q) (tok @ [c]) True cs)"
| "shlex_run (SEscape inq) tok quoted [] = Inl (PyExc ValueError ''No escaped character'')"
| "shlex_run (SEscape inq) tok quoted (c # cs) =
     (if inq then
        shlex_run (SQuote (CHR 0x22))
          (if c \<noteq> CHR 0x5C \<and> c \<noteq> CHR 0x22 then tok @ [CHR 0x5C, c] else tok @ [c]) quoted cs
      else shlex_run SWord (tok @ [c]) quoted cs)"

definition shlex_split :: "string \<Rightarrow> pyexc + string list" where
  "shlex_split s = shlex_run SSpace [] False s"

section \<open>The parser (command\_executor.py)\<close>

record ParsedCommand =
  name :: string
  args :: "pyval list"
  kwargs :: "(string \<times> pyval) list"
  raw_input :: string

text \<open>\<open>_parse_value\<close>: boolean first, then a number, then null, then the string itself.\<close>

definition parse_value :: "string \<Rightarrow> pyval" where
  "parse_value v =
     (if lower v \<in> {''true'', ''false''} then PBool (lower v = ''true'')
      else
        (case (if CHR ''.'' \<in> set v then map_option PFloat (py_float v)
               else map_option PInt (py_int v)) of
           Some x \<Rightarrow> x
         | None \<Rightarrow> if lower v \<in> {''none'', ''null''} then PNone else PStr v))"

text \<open>\<open>s.split('=', 1)\<close> on a string that contains \<open>=\<close>.\<close>

definition split_eq :: "string \<Rightarrow> string \<times> string" where
  "split_eq s = (takeWhile (\<lambda>c. c \<noteq> CHR ''='') s, drop 1 (dropWhile (\<lambda>c. c \<noteq> CHR ''='') s))"

text \<open>
  The \<open>while i < len(parts)\<close> loop of \<open>_parse_opencode_command\<close>, on the tokens from
  index \<open>i\<close> on. A keyword argument is stored with \<open>kwargs[key] = value\<close>, which keeps
  the position of a key already present.
\<close>

fun parse_parts ::
  "string list \<Rightarrow> pyval list \<Rightarrow> (string \<times> pyval) list \<Rightarrow> pyval list \<times> (string \<times> pyval) list"
where
  "parse_parts [] as kw = (as, kw)"
| "parse_parts [part] as kw =
     (if prefix ''--'' part then
        (let flag_part = drop 2 part in
         if CHR ''='' \<in> set flag_part then
           (case split_eq flag_part of
              (key, v) \<Rightarrow> parse_parts [] as (AList.update key (parse_value v) kw))
         else parse_parts [] as (AList.update flag_part (PBool True) kw))
      else if prefix ''-'' part then
        parse_parts [] as (AList.update (drop 1 part) (PBool True) kw)
      else parse_parts [] (as @ [parse_value part]) kw)"
| "parse_parts (part # nxt # rest) as kw =
     (if prefix ''--'' part then
        (let flag_part = drop 2 part in
         if CHR ''='' \<in> set flag_part then
           (case split_eq flag_part of
              (key, v) \<Rightarrow> parse_parts (nxt # rest) as (AList.update key (parse_value v) kw))
         else parse_parts rest as (AList.update flag_part (parse_value nxt) kw))
      else if prefix ''-'' part then
        (if \<not> prefix ''-'' nxt then
           parse_parts rest as (AList.update (drop 1 part) (parse_value nxt) kw)
         else parse_parts (nxt # rest) as (AList.update (drop 1 part) (PBool True) kw))
      else parse_parts (nxt # rest) (as @ [parse_value part]) kw)"

text \<open>\<open>_parse_opencode_command\<close>; \<open>Inl\<close> is the \<open>ValueError\<close> of \<open>shlex.split\<close>.\<close>

definition parse_opencode_command :: "string \<Rightarrow> pyexc + ParsedCommand option" where
  "parse_opencode_command command_string =
     (case shlex_split (drop 1 command_string) of
        Inl e \<Rightarrow> Inl e
      | Inr [] \<Rightarrow> Inr None
      | Inr (command_name # rest) \<Rightarrow>
          (case parse_parts rest [] [] of
             (as, kw) \<Rightarrow>
               Inr (Some \<lparr>name = command_name, args = as, kwargs = kw,
                          raw_input = command_string\<rparr>)))"

definition parse_simple_command :: "string \<Rightarrow> pyexc + ParsedCommand option" where
  "parse_simple_command command_string =
     (case shlex_split command_string of
        Inl e \<Rightarrow> Inl e
      | Inr [] \<Rightarrow> Inr None
      | Inr (p # ps) \<Rightarrow>
          Inr (Some \<lparr>name = p, args = map parse_value ps, kwargs = [],
                     raw_input = command_string\<rparr>))"

definition parse_command_string :: "string \<Rightarrow> pyexc + ParsedCommand option" where
  "parse_command_string command_string =
     (if command_string = [] \<or> strip command_string = [] then Inr None
      else
        (let s = strip command_string in
         if prefix ''/'' s then parse_opencode_command s else parse_simple_command s))"

section \<open>The registry (command\_registry.py)\<close>

text \<open>
  One entry of \<open>CommandMetadata.parameters\<close>: the dictionary with the keys \<open>type\<close>,
  \<open>required\<close> and \<open>default\<close>, each of which may be absent.
\<close>

record param_info =
  ptype :: "string option"
  required :: "bool option"
  default_value :: "pyval option"

text \<open>
  \<open>CommandMetadata\<close> after \<open>__post_init__\<close>; the field \<open>name\<close> is \<open>md_name\<close> here.
  The two time stamps are readings of the clock.
\<close>

record CommandMetadata =
  md_name :: string
  description :: string
  category :: string
  aliases :: "string list"
  parameters :: "(string \<times> param_info) list"
  examples :: "string list"
  version :: string
  author :: string
  tags :: "string list"
  requires_project :: bool
  hidden :: bool
  created_at :: nat
  updated_at :: nat

text \<open>
  A handler is a function object: its identity and its \<open>__module__\<close> attribute, if it
  has one. What calling it does is given by an environment from identities to behaviours.
\<close>

record handler_obj =
  handler_id :: nat
  handler_module :: "string option"

type_synonym handler_env = "nat \<Rightarrow> pyval list \<Rightarrow> (string \<times> pyval) list \<Rightarrow> pyexc + pyval"

record RegisteredCommand =
  metadata :: CommandMetadata
  handler :: handler_obj
  module_path :: string
  enabled :: bool

text \<open>
  \<open>CommandRegistry\<close>. The dictionary \<open>commands\<close> maps a key to a reference to a
  \<open>RegisteredCommand\<close> object; \<open>store\<close> holds the objects, so that two keys bound to
  the same object see each other's updates. Dictionaries are in insertion order.
\<close>

record CommandRegistry =
  commands :: "(string \<times> nat) list"
  categories :: "(string \<times> string list) list"
  store :: "nat \<Rightarrow> RegisteredCommand"
  next_ref :: nat

definition has_key :: "('k \<times> 'v) list \<Rightarrow> 'k \<Rightarrow> bool" where
  "has_key d k = (k \<in> set (map fst d))"

definition or_empty :: "'a list option \<Rightarrow> 'a list" where
  "or_empty xs = (case xs of None \<Rightarrow> [] | Some ys \<Rightarrow> ys)"

text \<open>The loop over the aliases: an alias is bound only where the key is still free.\<close>

definition register_aliases :: "nat \<Rightarrow> string list \<Rightarrow> (string \<times> nat) list \<Rightarrow> (string \<times> nat) list" where
  "register_aliases p als cmds =
     fold (\<lambda>alias cs. if \<not> has_key cs alias then AList.update alias p cs else cs) als cmds"

definition add_to_category ::
  "string \<Rightarrow> string \<Rightarrow> (string \<times> string list) list \<Rightarrow> (string \<times> string list) list" where
  "add_to_category cat nm cats =
     (let cats1 = (if \<not> has_key cats cat then AList.update cat [] cats else cats)
      in case map_of cats1 cat of
           None \<Rightarrow> cats1
         | Some names \<Rightarrow>
             if nm \<notin> set names then AList.update cat (names @ [nm]) cats1 else cats1)"

definition register_command ::
  "CommandRegistry \<Rightarrow> string \<Rightarrow> handler_obj \<Rightarrow> string \<Rightarrow> string \<Rightarrow> string list option \<Rightarrow>
   (string \<times> param_info) list option \<Rightarrow> string list option \<Rightarrow> string list option \<Rightarrow>
   bool \<Rightarrow> bool \<Rightarrow> string \<Rightarrow> nat \<Rightarrow> nat \<Rightarrow> CommandRegistry" where
  "register_command r nm h descr cat als params exs tgs req hid ver t_created t_updated =
     (let md = \<lparr>md_name = nm, description = descr, category = cat, aliases = or_empty als,
                parameters = or_empty params, examples = or_empty exs, version = ver,
                author = ''spec-kit'', tags = or_empty tgs, requires_project = req,
                hidden = hid, created_at = t_created, updated_at = t_updated\<rparr>;
          registered_command =
            \<lparr>metadata = md, handler = h,
             module_path = (case handler_module h of None \<Rightarrow> ''unknown'' | Some m \<Rightarrow> m),
             enabled = True\<rparr>;
          p = next_ref r
      in r\<lparr>commands := register_aliases p (aliases md) (AList.update nm p (commands r)),
           categories := add_to_category cat nm (categories r),
           store := (store r)(p := registered_command),
           next_ref := Suc p\<rparr>)"

text \<open>\<open>get_command\<close> returns the object bound to the key, that is, its reference.\<close>

definition get_command :: "CommandRegistry \<Rightarrow> string \<Rightarrow> nat option" where
  "get_command r nm = map_of (commands r) nm"

definition remove_keys :: "string list \<Rightarrow> (string \<times> nat) list \<Rightarrow> (string \<times> nat) list" where
  "remove_keys ks cmds = fold (\<lambda>alias cs. if has_key cs alias then AList.delete alias cs else cs) ks cmds"

definition unregister_command :: "CommandRegistry \<Rightarrow> string \<Rightarrow> CommandRegistry \<times> bool" where
  "unregister_command r nm =
     (case map_of (commands r) nm of
        None \<Rightarrow> (r, False)
      | Some p \<Rightarrow>
          (let command = store r p;
               cat = category (metadata command);
               cats = (case map_of (categories r) cat of
                         None \<Rightarrow> categories r
                       | Some names \<Rightarrow>
                           if nm \<in> set names
                           then AList.update cat (remove1 nm names) (categories r)
                           else categories r);
               aliases_to_remove = nm # aliases (metadata command)
           in (r\<lparr>commands := remove_keys aliases_to_remove (commands r), categories := cats\<rparr>,
               True)))"

definition set_enabled :: "CommandRegistry \<Rightarrow> string \<Rightarrow> bool \<Rightarrow> CommandRegistry \<times> bool" where
  "set_enabled r nm b =
     (case get_command r nm of
        Some p \<Rightarrow> (r\<lparr>store := (store r)(p := (store r p)\<lparr>enabled := b\<rparr>)\<rparr>, True)
      | None \<Rightarrow> (r, False))"

definition enable_command :: "CommandRegistry \<Rightarrow> string \<Rightarrow> CommandRegistry \<times> bool" where
  "enable_command r nm = set_enabled r nm True"

definition disable_command :: "CommandRegistry \<Rightarrow> string \<Rightarrow> CommandRegistry \<times> bool" where
  "disable_command r nm = set_enabled r nm False"

text \<open>A sequence of \<open>enable_command\<close> (\<open>True\<close>) and \<open>disable_command\<close> (\<open>False\<close>) calls on one name.\<close>

fun toggles :: "CommandRegistry \<Rightarrow> string \<Rightarrow> bool list \<Rightarrow> CommandRegistry" where
  "toggles r nm [] = r"
| "toggles r nm (b # bs) =
     toggles (fst (if b then enable_command r nm else disable_command r nm)) nm bs"

text \<open>
  \<open>list(self.commands.keys())[list(self.commands.values()).index(c)]\<close>: the key at the
  first position whose value equals \<open>c\<close>. Equality of two \<open>RegisteredCommand\<close> objects is
  the field-wise equality the dataclass generates, here the equality of the records (which
  tells apart two parameter dictionaries that list the same entries in a different order,
  and the default values \<open>0.0\<close> and \<open>-0.0\<close>; Python's does not). \<open>None\<close> is the
  \<open>ValueError\<close> of \<open>index\<close>.
\<close>

fun first_key_of :: "(string \<times> RegisteredCommand) list \<Rightarrow> RegisteredCommand \<Rightarrow> string option" where
  "first_key_of [] c = None"
| "first_key_of ((k, v) # kvs) c = (if v = c then Some k else first_key_of kvs c)"

record registry_stats =
  total_commands :: int
  enabled_commands :: int
  disabled_commands :: int
  n_categories :: int
  commands_per_category :: "(string \<times> int) list"

definition get_stats :: "CommandRegistry \<Rightarrow> registry_stats" where
  "get_stats r =
     (let items = map (\<lambda>(k, p). (k, store r p)) (commands r);
          vals = map snd items;
          total = int (length (filter (\<lambda>c. Some (md_name (metadata c)) = first_key_of items c) vals));
          en = int (length (filter (\<lambda>c. enabled c \<and>
                       Some (md_name (metadata c)) = first_key_of items c) vals))
      in \<lparr>total_commands = total, enabled_commands = en, disabled_commands = total - en,
          n_categories = int (length (categories r)),
          commands_per_category = map (\<lambda>(cat, cmds). (cat, int (length cmds))) (categories r)\<rparr>)"

text \<open>\<open>list_commands\<close> with its default arguments left open.\<close>

definition list_commands ::
  "CommandRegistry \<Rightarrow> string option \<Rightarrow> bool \<Rightarrow> bool \<Rightarrow> RegisteredCommand list" where
  "list_commands r cat include_hidden include_disabled =
     map snd (filter (\<lambda>(nm, command).
         md_name (metadata command) = nm
       \<and> \<not> (case cat of None \<Rightarrow> False
             | Some c \<Rightarrow> c \<noteq> [] \<and> category (metadata command) \<noteq> c)
       \<and> \<not> (hidden (metadata command) \<and> \<not> include_hidden)
       \<and> \<not> (\<not> enabled command \<and> \<not> include_disabled))
       (map (\<lambda>(k, p). (k, store r p)) (commands r)))"

definition has_project_path :: "(string \<times> pyval) list \<Rightarrow> bool" where
  "has_project_path ctx = (case map_of ctx ''project_path'' of None \<Rightarrow> False | Some v \<Rightarrow> truthy v)"

text \<open>\<open>CommandRegistry.execute_command\<close>: \<open>Inl\<close> is the exception it raises.\<close>

definition execute_command ::
  "handler_env \<Rightarrow> CommandRegistry \<Rightarrow> string \<Rightarrow> pyval list \<Rightarrow> (string \<times> pyval) list \<Rightarrow>
   (string \<times> pyval) list option \<Rightarrow> pyexc + pyval" where
  "execute_command hs r nm as kw ctx =
     (case get_command r nm of
        None \<Rightarrow> Inl (PyExc ValueError (''Command '' @ [CHR 0x27] @ nm @ [CHR 0x27] @ '' not found''))
      | Some p \<Rightarrow>
          (let command = store r p in
           if \<not> enabled command then
             Inl (PyExc ValueError (''Command '' @ [CHR 0x27] @ nm @ [CHR 0x27] @ '' is disabled''))
           else if requires_project (metadata command) \<and> \<not> has_project_path (or_empty ctx) then
             Inl (PyExc ValueError
                   (''Command '' @ [CHR 0x27] @ nm @ [CHR 0x27] @ '' requires a project context''))
           else
             (case hs (handler_id (handler command)) as kw of
                Inr v \<Rightarrow> Inr v
              | Inl e \<Rightarrow>
                  if caught_by_except_Exception e then
                    Inl (PyExc RuntimeError
                          (''Command '' @ [CHR 0x27] @ nm @ [CHR 0x27] @ '' execution failed: ''
                           @ exc_str e))
                  else Inl e)))"

section \<open>The executor (command\_executor.py)\<close>

text \<open>\<open>CommandResult\<close>; its fields \<open>output\<close> and \<open>context\<close> are \<open>output_value\<close> and \<open>result_context\<close> here.\<close>

record CommandResult =
  success :: bool
  output_value :: pyval
  error :: "string option"
  command_name :: string
  execution_time :: rat
  result_context :: "(string \<times> pyval) list option"

text \<open>The constructor \<open>CommandResult(success, error=..., command_name=...)\<close> with its defaults.\<close>

definition failure :: "string \<Rightarrow> string \<Rightarrow> CommandResult" where
  "failure msg nm =
     \<lparr>success = False, output_value = PNone, error = Some msg, command_name = nm,
      execution_time = 0, result_context = None\<rparr>"

text \<open>\<open>isinstance(value, type_map[t])\<close>; \<open>bool\<close> is a subclass of \<open>int\<close>.\<close>

fun isinstance_of :: "pyval \<Rightarrow> string \<Rightarrow> bool" where
  "isinstance_of v t =
     (if t = ''str'' then (case v of PStr _ \<Rightarrow> True | _ \<Rightarrow> False)
      else if t = ''int'' then (case v of PInt _ \<Rightarrow> True | PBool _ \<Rightarrow> True | _ \<Rightarrow> False)
      else if t = ''float'' then (case v of PFloat _ \<Rightarrow> True | _ \<Rightarrow> False)
      else if t = ''bool'' then (case v of PBool _ \<Rightarrow> True | _ \<Rightarrow> False)
      else if t = ''list'' then (case v of PList _ \<Rightarrow> True | _ \<Rightarrow> False)
      else if t = ''dict'' then (case v of PDict _ \<Rightarrow> True | _ \<Rightarrow> False)
      else False)"

definition type_map_keys :: "string list" where
  "type_map_keys = [''str'', ''int'', ''float'', ''bool'', ''list'', ''dict'']"

text \<open>\<open>_validate_type\<close>\<close>

definition validate_type :: "pyval \<Rightarrow> string \<Rightarrow> bool" where
  "validate_type v expected_type =
     (if expected_type = ''any'' then True
      else if expected_type \<in> set type_map_keys then isinstance_of v expected_type
      else True)"

text \<open>The two loops of \<open>validate_command_arguments\<close>, each giving its error messages.\<close>

definition missing_msg :: "string \<Rightarrow> string" where
  "missing_msg param_name =
     ''Required parameter '' @ [CHR 0x27] @ param_name @ [CHR 0x27] @ '' is missing''"

definition type_msg :: "string \<Rightarrow> string \<Rightarrow> string" where
  "type_msg param_name expected_type =
     ''Parameter '' @ [CHR 0x27] @ param_name @ [CHR 0x27] @ '' should be of type '' @ expected_type"

definition is_required :: "param_info \<Rightarrow> bool" where
  "is_required info = (case required info of None \<Rightarrow> False | Some b \<Rightarrow> b)"

definition expected_type_of :: "param_info \<Rightarrow> string" where
  "expected_type_of info = (case ptype info of None \<Rightarrow> ''any'' | Some t \<Rightarrow> t)"

definition required_errors :: "ParsedCommand \<Rightarrow> (string \<times> param_info) list \<Rightarrow> string list" where
  "required_errors parsed params =
     concat (map (\<lambda>(param_name, info).
         if is_required info \<and> \<not> has_key (kwargs parsed) param_name \<and> length (args parsed) = 0
         then [missing_msg param_name] else []) params)"

definition type_errors :: "ParsedCommand \<Rightarrow> (string \<times> param_info) list \<Rightarrow> string list" where
  "type_errors parsed params =
     concat (map (\<lambda>(param_name, v).
         (case map_of params param_name of
            None \<Rightarrow> []
          | Some info \<Rightarrow>
              if \<not> validate_type v (expected_type_of info)
              then [type_msg param_name (expected_type_of info)] else [])) (kwargs parsed))"

record validation =
  valid :: bool
  verror :: "string option"

definition validate_command_arguments :: "ParsedCommand \<Rightarrow> RegisteredCommand \<Rightarrow> validation" where
  "validate_command_arguments parsed command =
     (if parameters (metadata command) = [] then \<lparr>valid = True, verror = None\<rparr>
      else
        (let errors = required_errors parsed (parameters (metadata command))
                      @ type_errors parsed (parameters (metadata command))
         in if errors \<noteq> [] then \<lparr>valid = False, verror = Some (join ''; '' errors)\<rparr>
            else \<lparr>valid = True, verror = None\<rparr>))"

text \<open>
  \<open>except Exception as e: return f(e)\<close> around a body: an exception that derives from
  \<open>Exception\<close> becomes the result \<open>f e\<close>, any other one goes on to the caller.
\<close>

definition except_Exception :: "(pyexc \<Rightarrow> 'a) \<Rightarrow> pyexc + 'a \<Rightarrow> pyexc + 'a" where
  "except_Exception f body =
     (case body of
        Inr x \<Rightarrow> Inr x
      | Inl e \<Rightarrow> if caught_by_except_Exception e then Inr (f e) else Inl e)"

definition execute_parsed_command ::
  "handler_env \<Rightarrow> CommandRegistry \<Rightarrow> ParsedCommand \<Rightarrow> (string \<times> pyval) list option \<Rightarrow>
   pyexc + CommandResult" where
  "execute_parsed_command hs r parsed ctx =
     except_Exception
       (\<lambda>e. failure (''Command execution failed: '' @ exc_str e) (name parsed))
       (case get_command r (name parsed) of
          None \<Rightarrow>
            Inr (failure (''Command '' @ [CHR 0x27] @ name parsed @ [CHR 0x27] @ '' not found'')
                   (name parsed))
        | Some p \<Rightarrow>
            (let command = store r p in
             if \<not> enabled command then
               Inr (failure (''Command '' @ [CHR 0x27] @ name parsed @ [CHR 0x27] @ '' is disabled'')
                      (name parsed))
             else if requires_project (metadata command)
                     \<and> (or_empty ctx = [] \<or> \<not> has_project_path (or_empty ctx)) then
               Inr (failure (''Command '' @ [CHR 0x27] @ name parsed @ [CHR 0x27]
                             @ '' requires a project context'') (name parsed))
             else
               (let validation_result = validate_command_arguments parsed command in
                if \<not> valid validation_result then
                  Inr (failure (case verror validation_result of None \<Rightarrow> [] | Some m \<Rightarrow> m)
                         (name parsed))
                else
                  (case execute_command hs r (name parsed) (args parsed) (kwargs parsed) ctx of
                     Inl e \<Rightarrow> Inl e
                   | Inr v \<Rightarrow>
                       Inr \<lparr>success = True, output_value = v, error = None,
                            command_name = name parsed, execution_time = 0,
                            result_context = None\<rparr>))))"

text \<open>
  \<open>execute_string\<close>; \<open>start_time\<close> and \<open>end_time\<close> are the two readings of \<open>time.time()\<close>
  that every path takes.
\<close>

definition execute_string ::
  "handler_env \<Rightarrow> CommandRegistry \<Rightarrow> string \<Rightarrow> (string \<times> pyval) list option \<Rightarrow> rat \<Rightarrow> rat \<Rightarrow>
   pyexc + CommandResult" where
  "execute_string hs r command_string ctx start_time end_time =
     except_Exception
       (\<lambda>e. (failure (exc_str e) [])\<lparr>execution_time := end_time - start_time, result_context := ctx\<rparr>)
       (case parse_command_string command_string of
          Inl e \<Rightarrow> Inl e
        | Inr None \<Rightarrow>
            Inr ((failure ''Failed to parse command'' [])\<lparr>execution_time := end_time - start_time\<rparr>)
        | Inr (Some parsed) \<Rightarrow>
            (case execute_parsed_command hs r parsed ctx of
               Inl e \<Rightarrow> Inl e
             | Inr result \<Rightarrow>
                 Inr (result\<lparr>execution_time := end_time - start_time, result_context := ctx\<rparr>)))"

section \<open>The agent registry (agent\_registry.py)\<close>

text \<open>
  An agent instance is given by what its \<open>execute\<close> does on an input (it returns a
  value or raises) and by what \<open>bool(agent)\<close> does: an instance is true unless its class
  defines \<open>__bool__\<close> or \<open>__len__\<close>, which may make it false or raise. The dictionary
  \<open>_agents\<close> maps names to instances. An envelope is the dictionary \<open>execute_agent\<close>
  returns; \<open>now\<close> is \<open>datetime.now().isoformat()\<close>.
\<close>

record agent =
  agent_execute :: "pyval \<Rightarrow> pyexc + pyval"
  agent_bool :: "pyexc + bool"

record AgentRegistry =
  agents :: "(string \<times> agent) list"

definition get_agent :: "AgentRegistry \<Rightarrow> string \<Rightarrow> agent option" where
  "get_agent ar nm = map_of (agents ar) nm"

text \<open>\<open>not agent\<close> for the value \<open>self.get_agent(agent_name)\<close>; \<open>Inl\<close> is an exception of the truth test.\<close>

definition not_agent :: "agent option \<Rightarrow> pyexc + bool" where
  "not_agent x =
     (case x of
        None \<Rightarrow> Inr True
      | Some a \<Rightarrow> (case agent_bool a of Inl e \<Rightarrow> Inl e | Inr b \<Rightarrow> Inr (\<not> b)))"

definition not_found_envelope :: "string \<Rightarrow> (string \<times> pyval) list" where
  "not_found_envelope agent_name =
     [(''success'', PBool False),
      (''error'', PStr (''Agent '' @ [CHR 0x22] @ agent_name @ [CHR 0x22] @ '' not found''))]"

definition execute_agent ::
  "AgentRegistry \<Rightarrow> string \<Rightarrow> pyval \<Rightarrow> string \<Rightarrow> pyexc + (string \<times> pyval) list" where
  "execute_agent ar agent_name input_data now =
     (case not_agent (get_agent ar agent_name) of
        Inl e \<Rightarrow> Inl e
      | Inr True \<Rightarrow> Inr (not_found_envelope agent_name)
      | Inr False \<Rightarrow>
          (case get_agent ar agent_name of
             None \<Rightarrow> Inr (not_found_envelope agent_name)
           | Some a \<Rightarrow>
               except_Exception
                 (\<lambda>e. [(''success'', PBool False), (''error'', PStr (exc_str e)),
                       (''agent'', PStr agent_name), (''timestamp'', PStr now)])
                 (case agent_execute a input_data of
                    Inl e \<Rightarrow> Inl e
                  | Inr result \<Rightarrow>
                      Inr [(''success'', PBool True), (''result'', result),
                           (''agent'', PStr agent_name), (''timestamp'', PStr now)])))"

section \<open>The number literals\<close>

text \<open>
  The tokens \<open>int()\<close> and \<open>float()\<close> accept, as grammars. A digit run is a non-empty
  sequence of decimal digits in which single underscores may stand between two digits;
  it comes with the list of its digit values.
\<close>

inductive digit_run :: "string \<Rightarrow> nat list \<Rightarrow> bool" where
  digit_run_one: "digit_val c = Some d \<Longrightarrow> digit_run [c] [d]"
| digit_run_next: "digit_val c = Some d \<Longrightarrow> digit_run s ds \<Longrightarrow> digit_run (c # s) (d # ds)"
| digit_run_underscore:
    "digit_val c = Some d \<Longrightarrow> digit_run s ds \<Longrightarrow> digit_run (c # CHR ''_'' # s) (d # ds)"

code_pred digit_run .

definition digit_chars :: "char list" where
  "digit_chars = ''0123456789''"

text \<open>The characters a number literal is written with.\<close>

definition literal_chars :: "char list" where
  "literal_chars = ''0123456789_.+-eE''"

definition is_sign :: "string \<Rightarrow> bool" where
  "is_sign sg = (sg = [] \<or> sg = ''+'' \<or> sg = ''-'')"

definition sign_factor :: "string \<Rightarrow> int" where
  "sign_factor sg = (if sg = ''-'' then - 1 else 1)"

text \<open>
  An integer literal: whitespace, an optional sign, a digit run of at most 4300 digits,
  whitespace.
\<close>

definition int_literal :: "string \<Rightarrow> int \<Rightarrow> bool" where
  "int_literal s n =
     (\<exists>l sg body t ds.
        s = l @ sg @ body @ t \<and> set l \<subseteq> set num_whitespace \<and> set t \<subseteq> set num_whitespace \<and>
        is_sign sg \<and> digit_run body ds \<and> length ds \<le> 4300 \<and>
        n = sign_factor sg * int (digits_value ds))"

definition opt_digit_run :: "string \<Rightarrow> nat list \<Rightarrow> bool" where
  "opt_digit_run s ds = ((s = [] \<and> ds = []) \<or> digit_run s ds)"

definition exponent_part :: "string \<Rightarrow> int \<Rightarrow> bool" where
  "exponent_part ex e =
     ((ex = [] \<and> e = 0) \<or>
      (\<exists>c sg body ds. ex = c # sg @ body \<and> is_e c \<and> is_sign sg \<and> digit_run body ds \<and>
                      e = sign_factor sg * int (digits_value ds)))"

text \<open>
  A float literal with a dot: whitespace, an optional sign, digits, the dot, digits, an
  optional exponent, whitespace, with a digit on at least one side of the dot. Its value
  is the binary64 number nearest to the decimal number written.
\<close>

definition float_literal :: "string \<Rightarrow> pyfloat \<Rightarrow> bool" where
  "float_literal s f =
     (\<exists>l sg ip fp ex t ids fds e.
        s = l @ sg @ ip @ ''.'' @ fp @ ex @ t \<and>
        set l \<subseteq> set num_whitespace \<and> set t \<subseteq> set num_whitespace \<and> is_sign sg \<and>
        opt_digit_run ip ids \<and> opt_digit_run fp fds \<and> (ip \<noteq> [] \<or> fp \<noteq> []) \<and>
        exponent_part ex e \<and>
        f = round64 (sg = ''-'')
              (of_nat (digits_value (ids @ fds)) * pow10 (e - int (length fds))))"

section \<open>Fixtures\<close>

text \<open>\<open>CommandRegistry()\<close>: both dictionaries empty, no object allocated.\<close>

definition new_registry :: CommandRegistry where
  "new_registry = \<lparr>commands = [], categories = [], store = (\<lambda>_. undefined), next_ref = 0\<rparr>"

text \<open>A function object defined in the module \<open>m\<close>.\<close>

definition fn :: "nat \<Rightarrow> handler_obj" where
  "fn i = \<lparr>handler_id = i, handler_module = Some ''m''\<rparr>"

text \<open>\<open>register_command(nm, h, ''d'', aliases=als)\<close> with every other argument at its default.\<close>

definition register_plain :: "CommandRegistry \<Rightarrow> string \<Rightarrow> handler_obj \<Rightarrow> string list \<Rightarrow> CommandRegistry" where
  "register_plain r nm h als =
     register_command r nm h ''d'' ''general'' (Some als) None None None False False ''1.0.0'' 0 0"

text \<open>An enabled entry named \<open>echo\<close> with the parameter schema \<open>ps\<close>.\<close>

definition echo_command :: "(string \<times> param_info) list \<Rightarrow> RegisteredCommand" where
  "echo_command ps =
     \<lparr>metadata = \<lparr>md_name = ''echo'', description = ''d'', category = ''general'', aliases = [],
                   parameters = ps, examples = [], version = ''1.0.0'', author = ''spec-kit'',
                   tags = [], requires_project = False, hidden = False, created_at = 0,
                   updated_at = 0\<rparr>,
      handler = fn 0, module_path = ''m'', enabled = True\<rparr>"

definition two_required :: "(string \<times> param_info) list" where
  "two_required =
     [(''a'', \<lparr>ptype = Some ''int'', required = Some True, default_value = None\<rparr>),
      (''b'', \<lparr>ptype = Some ''str'', required = Some True, default_value = None\<rparr>)]"

section \<open>Evaluation\<close>

lemmas parse_eval =
  parse_command_string_def strip_def py_isspace_def py_whitespace_def
  parse_opencode_command_def parse_simple_command_def shlex_split_def sh_whitespace_def
  sh_escape_def sh_quote_def emit_def split_eq_def parse_value_def lower_def lower_char_def
  upper_chars_def lower_chars_def py_int_def py_float_def digit_val_def digits_value_def
  opt_digitpart_def float_exponent_def is_e_def pow10_def num_strip_def num_isspace_def
  num_whitespace_def int_max_str_digits_def

lemmas registry_eval =
  new_registry_def fn_def register_plain_def register_command_def register_aliases_def
  add_to_category_def has_key_def or_empty_def get_command_def unregister_command_def
  remove_keys_def set_enabled_def enable_command_def disable_command_def

section \<open>The parser: flags\<close>

text \<open>
  What the loop does with a long flag that has no \<open>=\<close> and is not the last token: the
  next token becomes its value, whatever it looks like.
\<close>

lemma long_flag_takes_next_token:
  "CHR ''='' \<notin> set k \<Longrightarrow>
   parse_parts ((''--'' @ k) # nxt # rest) as kw
     = parse_parts rest as (AList.update k (parse_value nxt) kw)"
  by simp

text \<open>
  C6. In the prefixed grammar a long flag without \<open>=\<close> should take the following token
  as its value only if that token does not look like a flag, so that
  \<open>/x --a --b=1\<close> gives \<open>a = true\<close> and \<open>b = 1\<close>. The code takes the following token
  unconditionally: on this input it returns the single keyword argument \<open>a\<close>, bound to
  the string \<open>--b=1\<close>, and no \<open>b\<close>.
\<close>

theorem long_flag_swallows_flag:
  "parse_command_string ''/x --a --b=1'' =
     Inr (Some \<lparr>name = ''x'', args = [], kwargs = [(''a'', PStr ''--b=1'')],
                raw_input = ''/x --a --b=1''\<rparr>)"
  by (simp add: parse_eval)

text \<open>The short-flag branch of the same loop does look at the following token.\<close>

lemma short_flag_checks_next_token:
  "parse_command_string ''/x -a -b 1'' =
     Inr (Some \<lparr>name = ''x'', args = [], kwargs = [(''a'', PBool True), (''b'', PInt 1)],
                raw_input = ''/x -a -b 1''\<rparr>)"
  by (simp add: parse_eval)

section \<open>The registry: statistics\<close>

text \<open>
  C3. \<open>get_stats\<close> should count every primary name once. With one command \<open>n\<close> and one
  alias \<open>a\<close> of it, both keys hold the same object, \<open>index\<close> finds it at the first
  position for either occurrence, the key there is the primary name, and so the entry is
  counted twice: \<open>total_commands\<close> is 2 for a registry with one command.
\<close>

theorem get_stats_counts_alias:
  "get_stats (register_plain new_registry ''n'' (fn 0) [''a'']) =
     \<lparr>total_commands = 2, enabled_commands = 2, disabled_commands = 0, n_categories = 1,
      commands_per_category = [(''general'', 1)]\<rparr>"
  by (simp add: get_stats_def registry_eval)

text \<open>\<open>list_commands\<close> on the same registry gives the one command.\<close>

lemma list_commands_one:
  "length (list_commands (register_plain new_registry ''n'' (fn 0) [''a'']) None False False) = 1"
  by (simp add: list_commands_def registry_eval)

section \<open>The number literals and the library functions\<close>

lemma digit_val_chars: "digit_val c = Some d \<Longrightarrow> c \<in> set digit_chars"
proof -
  assume a: "digit_val c = Some d"
  have "length ''0123456789'' = length [0::nat, 1, 2, 3, 4, 5, 6, 7, 8, 9]" by simp
  from map_of_zip_is_None[OF this, of c] a show ?thesis
    unfolding digit_val_def digit_chars_def by auto
qed

lemma digit_chars_other:
  "c \<in> set digit_chars \<Longrightarrow>
   c \<noteq> CHR ''_'' \<and> c \<noteq> CHR ''.'' \<and> c \<noteq> CHR ''+'' \<and> c \<noteq> CHR ''-'' \<and> \<not> is_e c"
  by (auto simp: digit_chars_def is_e_def)

lemma digit_chars_literal: "c \<in> set digit_chars \<Longrightarrow> c \<in> set literal_chars"
  by (auto simp: digit_chars_def literal_chars_def)

lemma literal_chars_not_space: "c \<in> set literal_chars \<Longrightarrow> \<not> num_isspace c"
proof -
  have "set num_whitespace \<inter> set literal_chars = {}"
    by (simp add: num_whitespace_def literal_chars_def)
  then show "c \<in> set literal_chars \<Longrightarrow> \<not> num_isspace c"
    unfolding num_isspace_def by blast
qed

lemma sign_dot_literal:
  "CHR ''+'' \<in> set literal_chars" "CHR ''-'' \<in> set literal_chars" "CHR ''.'' \<in> set literal_chars"
  by (simp_all add: literal_chars_def)

lemma digit_not_underscore: "digit_val c = Some d \<Longrightarrow> c \<noteq> CHR ''_''"
  using digit_val_chars digit_chars_other by blast

lemma digit_run_hd: "digit_run s ds \<Longrightarrow> \<exists>c r d. s = c # r \<and> digit_val c = Some d"
  by (erule digit_run.cases) auto

lemma digit_run_digitpart: "digit_run s ds \<Longrightarrow> digitpart s = Some ds"
proof (induction rule: digit_run.induct)
  case (digit_run_one c d)
  then show ?case by simp
next
  case (digit_run_next c d s ds)
  from digit_run_hd[OF digit_run_next.hyps(2)] obtain c' r d'
    where s: "s = c' # r" and c': "digit_val c' = Some d'" by blast
  have "c' \<noteq> CHR ''_''" using c' by (rule digit_not_underscore)
  with digit_run_next s show ?case by simp
next
  case (digit_run_underscore c d s ds)
  then show ?case by simp
qed

lemma digitpart_digit_run: "digitpart s = Some ds \<Longrightarrow> digit_run s ds"
proof (induction s arbitrary: ds rule: digitpart.induct)
  case 1
  then show ?case by simp
next
  case (2 c)
  then show ?case by (auto intro: digit_run.intros)
next
  case (3 c u cs)
  from "3.prems" obtain d where d: "digit_val c = Some d"
    by (cases "digit_val c") auto
  show ?case
  proof (cases "u = CHR ''_''")
    case True
    with "3.prems" d obtain ds' where "digitpart cs = Some ds'" "ds = d # ds'" by auto
    with "3.IH"(1)[OF d True] d True show ?thesis by (auto intro: digit_run.intros)
  next
    case False
    with "3.prems" d obtain ds' where "digitpart (u # cs) = Some ds'" "ds = d # ds'" by auto
    with "3.IH"(2)[OF d False] d show ?thesis by (auto intro: digit_run.intros)
  qed
qed

lemma digitpart_iff: "digitpart s = Some ds \<longleftrightarrow> digit_run s ds"
  using digit_run_digitpart digitpart_digit_run by blast

lemma digit_run_chars:
  "digit_run s ds \<Longrightarrow> x \<in> set s \<Longrightarrow> x \<in> set digit_chars \<or> x = CHR ''_''"
  by (induction rule: digit_run.induct) (auto dest: digit_val_chars)

lemma digit_run_last: "digit_run s ds \<Longrightarrow> last s \<in> set digit_chars"
proof (induction rule: digit_run.induct)
  case (digit_run_one c d)
  then show ?case by (auto dest: digit_val_chars)
next
  case (digit_run_next c d s ds)
  then have "s \<noteq> []" by (auto dest: digit_run_hd)
  with digit_run_next show ?case by simp
next
  case (digit_run_underscore c d s ds)
  then have "s \<noteq> []" by (auto dest: digit_run_hd)
  with digit_run_underscore show ?case by simp
qed

lemma digit_run_hd_char: "digit_run s ds \<Longrightarrow> hd s \<in> set digit_chars"
  by (auto dest!: digit_run_hd dest: digit_val_chars)

lemma digit_run_nonempty: "digit_run s ds \<Longrightarrow> s \<noteq> []"
  by (auto dest: digit_run_hd)

lemma rev_dropWhile_takeWhile: "rev (dropWhile P ys) @ rev (takeWhile P ys) = rev ys"
  by (metis rev_append takeWhile_dropWhile_id)

lemma num_strip_decompose:
  "\<exists>l t. s = l @ num_strip s @ t \<and> set l \<subseteq> set num_whitespace \<and> set t \<subseteq> set num_whitespace"
proof -
  let ?u = "dropWhile num_isspace s"
  let ?l = "takeWhile num_isspace s"
  let ?t = "rev (takeWhile num_isspace (rev ?u))"
  have 1: "s = ?l @ ?u" by simp
  have 2: "?u = num_strip s @ ?t"
    using rev_dropWhile_takeWhile[of num_isspace "rev ?u"] by (simp add: num_strip_def)
  have 3: "set ?l \<subseteq> set num_whitespace"
    using set_takeWhileD[of _ num_isspace s] by (auto simp: num_isspace_def)
  have 4: "set ?t \<subseteq> set num_whitespace"
    using set_takeWhileD[of _ num_isspace "rev ?u"] by (auto simp: num_isspace_def)
  from 1 2 have "s = ?l @ num_strip s @ ?t" by simp
  with 3 4 show ?thesis by blast
qed

lemma num_strip_core:
  assumes "set l \<subseteq> set num_whitespace" "set t \<subseteq> set num_whitespace"
    and "m \<noteq> []" "\<not> num_isspace (hd m)" "\<not> num_isspace (last m)"
  shows "num_strip (l @ m @ t) = m"
proof -
  obtain a m' where m: "m = a # m'" using assms(3) by (cases m) auto
  have l: "\<And>x. x \<in> set l \<Longrightarrow> num_isspace x" using assms(1) by (auto simp: num_isspace_def)
  have t: "\<And>x. x \<in> set (rev t) \<Longrightarrow> num_isspace x" using assms(2) by (auto simp: num_isspace_def)
  have 1: "dropWhile num_isspace (l @ m @ t) = m @ t"
    using assms(4) l by (simp add: m)
  have "rev m \<noteq> []" using assms(3) by simp
  then obtain b m'' where rm: "rev m = b # m''" by (cases "rev m") auto
  then have "b = hd (rev m)" by simp
  then have b: "b = last m" using assms(3) by (simp add: hd_rev)
  have "dropWhile num_isspace (rev t @ rev m) = dropWhile num_isspace (rev m)"
    by (rule dropWhile_append2) (use t in auto)
  also have "\<dots> = rev m" unfolding rm using assms(5) b by simp
  finally have 2: "dropWhile num_isspace (rev (m @ t)) = rev m" by simp
  show ?thesis unfolding num_strip_def 1 2 by simp
qed


lemma split_sign_decompose:
  assumes "split_sign m = (sgv, body)"
  shows "\<exists>sg. is_sign sg \<and> m = sg @ body \<and> sgv = sign_factor sg"
proof (cases m)
  case Nil
  with assms have "is_sign [] \<and> m = [] @ body \<and> sgv = sign_factor []"
    by (simp add: is_sign_def sign_factor_def)
  then show ?thesis by blast
next
  case (Cons c cs)
  show ?thesis
  proof (cases "c = CHR ''-''")
    case True
    with assms Cons have "is_sign ''-'' \<and> m = ''-'' @ body \<and> sgv = sign_factor ''-''"
      by (simp add: is_sign_def sign_factor_def)
    then show ?thesis by blast
  next
    case False
    note nm = this
    show ?thesis
    proof (cases "c = CHR ''+''")
      case True
      with assms Cons have "is_sign ''+'' \<and> m = ''+'' @ body \<and> sgv = sign_factor ''+''"
        by (simp add: is_sign_def sign_factor_def)
      then show ?thesis by blast
    next
      case False
      with nm assms Cons have "is_sign [] \<and> m = [] @ body \<and> sgv = sign_factor []"
        by (simp add: is_sign_def sign_factor_def)
      then show ?thesis by blast
    qed
  qed
qed

lemma split_sign_compose:
  assumes "is_sign sg" "body \<noteq> []" "hd body \<noteq> CHR ''-''" "hd body \<noteq> CHR ''+''"
  shows "split_sign (sg @ body) = (sign_factor sg, body)"
proof -
  obtain c cs where b: "body = c # cs" using assms(2) by (cases body) auto
  consider "sg = []" | "sg = ''+''" | "sg = ''-''" using assms(1) unfolding is_sign_def by blast
  then show ?thesis
  proof cases
    case 1
    then show ?thesis using assms(3,4) b by (simp add: sign_factor_def)
  next
    case 2
    then show ?thesis by (simp add: sign_factor_def)
  next
    case 3
    then show ?thesis by (simp add: sign_factor_def)
  qed
qed

lemma py_int_iff: "py_int s = Some n \<longleftrightarrow> int_literal s n"
proof
  assume a: "py_int s = Some n"
  obtain sgv body where sp: "split_sign (num_strip s) = (sgv, body)" by (cases "split_sign (num_strip s)")
  from a sp obtain ds where ds: "digitpart body = Some ds" "length ds \<le> 4300"
    "n = sgv * int (digits_value ds)"
    by (auto simp: py_int_def int_max_str_digits_def split: option.splits if_splits)
  from split_sign_decompose[OF sp] obtain sg where
    sg: "is_sign sg" "num_strip s = sg @ body" "sgv = sign_factor sg" by blast
  from num_strip_decompose[of s] obtain l t where
    lt: "s = l @ num_strip s @ t" "set l \<subseteq> set num_whitespace" "set t \<subseteq> set num_whitespace"
    by blast
  have "s = l @ sg @ body @ t" using lt(1) sg(2) by simp
  then show "int_literal s n"
    unfolding int_literal_def using lt(2,3) sg(1,3) ds digitpart_digit_run[OF ds(1)] by blast
next
  assume "int_literal s n"
  then obtain l sg body t ds where
    d: "s = l @ sg @ body @ t" "set l \<subseteq> set num_whitespace" "set t \<subseteq> set num_whitespace"
       "is_sign sg" "digit_run body ds" "length ds \<le> 4300"
       "n = sign_factor sg * int (digits_value ds)"
    unfolding int_literal_def by blast
  have bne: "body \<noteq> []" using d(5) by (rule digit_run_nonempty)
  have hb: "hd body \<in> set digit_chars" using d(5) by (rule digit_run_hd_char)
  have lb: "last body \<in> set digit_chars" using d(5) by (rule digit_run_last)
  let ?m = "sg @ body"
  have mne: "?m \<noteq> []" using bne by simp
  have hm: "hd ?m \<in> set literal_chars"
  proof (cases "sg = []")
    case True
    then show ?thesis using hb digit_chars_literal by simp
  next
    case False
    then have "hd ?m = CHR ''+'' \<or> hd ?m = CHR ''-''" using d(4) by (auto simp: is_sign_def)
    then show ?thesis using sign_dot_literal by auto
  qed
  have lm: "last ?m \<in> set literal_chars" using lb bne digit_chars_literal by simp
  have sp: "\<not> num_isspace (hd ?m)" "\<not> num_isspace (last ?m)"
    using hm lm literal_chars_not_space by blast+
  from num_strip_core[OF d(2,3) mne sp] have st: "num_strip s = ?m" using d(1) by simp
  have "split_sign ?m = (sign_factor sg, body)"
    using split_sign_compose[OF d(4) bne] digit_chars_other[OF hb] by blast
  then show "py_int s = Some n"
    using st d(6,7) digit_run_digitpart[OF d(5)]
    by (simp add: py_int_def int_max_str_digits_def)
qed


lemma underscore_literal: "CHR ''_'' \<in> set literal_chars"
  by (simp add: literal_chars_def)

lemma is_e_literal: "is_e c \<Longrightarrow> c \<in> set literal_chars"
  by (auto simp: is_e_def literal_chars_def)

lemma is_sign_literal: "is_sign sg \<Longrightarrow> x \<in> set sg \<Longrightarrow> x \<in> set literal_chars"
  using sign_dot_literal by (auto simp: is_sign_def)

lemma digit_run_literal: "digit_run s ds \<Longrightarrow> x \<in> set s \<Longrightarrow> x \<in> set literal_chars"
  using digit_run_chars digit_chars_literal underscore_literal by blast

lemma digit_run_plain: "digit_run s ds \<Longrightarrow> x \<in> set s \<Longrightarrow> x \<noteq> CHR ''.'' \<and> \<not> is_e x"
proof -
  assume "digit_run s ds" "x \<in> set s"
  then have "x \<in> set digit_chars \<or> x = CHR ''_''" by (rule digit_run_chars)
  then show ?thesis using digit_chars_other by (auto simp: is_e_def)
qed

lemma opt_digit_run_literal: "opt_digit_run s ds \<Longrightarrow> x \<in> set s \<Longrightarrow> x \<in> set literal_chars"
  unfolding opt_digit_run_def using digit_run_literal by auto

lemma opt_digit_run_plain: "opt_digit_run s ds \<Longrightarrow> x \<in> set s \<Longrightarrow> x \<noteq> CHR ''.'' \<and> \<not> is_e x"
  unfolding opt_digit_run_def using digit_run_plain by auto

lemma opt_digitpart_iff: "opt_digitpart s = Some ds \<longleftrightarrow> opt_digit_run s ds"
proof (cases "s = []")
  case True
  then show ?thesis
    by (auto simp: opt_digitpart_def opt_digit_run_def dest: digit_run_nonempty)
next
  case False
  then show ?thesis by (simp add: opt_digitpart_def opt_digit_run_def digitpart_iff)
qed

lemma exponent_part_literal: "exponent_part ex e \<Longrightarrow> x \<in> set ex \<Longrightarrow> x \<in> set literal_chars"
  unfolding exponent_part_def
  using is_e_literal is_sign_literal digit_run_literal by fastforce

lemma exponent_part_hd: "exponent_part ex e \<Longrightarrow> ex = [] \<or> is_e (hd ex)"
  unfolding exponent_part_def by auto

lemma exponent_part_last: "exponent_part ex e \<Longrightarrow> ex \<noteq> [] \<Longrightarrow> last ex \<in> set literal_chars"
  using exponent_part_literal last_in_set by blast

lemma float_exponent_iff:
  assumes "ex = [] \<or> is_e (hd ex)"
  shows "float_exponent ex = Some e \<longleftrightarrow> exponent_part ex e"
proof (cases ex)
  case Nil
  then show ?thesis
    by (auto simp: float_exponent_def exponent_part_def)
next
  case (Cons c cs)
  then have c: "is_e c" using assms by simp
  show ?thesis
  proof
    assume a: "float_exponent ex = Some e"
    obtain sgv b where sp: "split_sign cs = (sgv, b)" by (cases "split_sign cs")
    from a Cons sp obtain xs where xs: "digitpart b = Some xs" "e = sgv * int (digits_value xs)"
      by (auto simp: float_exponent_def)
    from split_sign_decompose[OF sp] obtain sg where
      sg: "is_sign sg" "cs = sg @ b" "sgv = sign_factor sg" by blast
    have "ex = c # sg @ b" using Cons sg(2) by simp
    then show "exponent_part ex e"
      unfolding exponent_part_def using c sg(1,3) xs(2) digitpart_digit_run[OF xs(1)] by blast
  next
    assume "exponent_part ex e"
    with Cons obtain c' sg b xs where
      d: "ex = c' # sg @ b" "is_sign sg" "digit_run b xs" "e = sign_factor sg * int (digits_value xs)"
      unfolding exponent_part_def by auto
    have bne: "b \<noteq> []" using d(3) by (rule digit_run_nonempty)
    have hb: "hd b \<in> set digit_chars" using d(3) by (rule digit_run_hd_char)
    have "split_sign (sg @ b) = (sign_factor sg, b)"
      using split_sign_compose[OF d(2) bne] digit_chars_other[OF hb] by blast
    then show "float_exponent ex = Some e"
      using d(1,4) digit_run_digitpart[OF d(3)] by (simp add: float_exponent_def)
  qed
qed

lemma dot_split:
  assumes "CHR ''.'' \<in> set body"
  shows "body = takeWhile (\<lambda>c. c \<noteq> CHR ''.'') body @ ''.''
                @ drop 1 (dropWhile (\<lambda>c. c \<noteq> CHR ''.'') body)"
proof -
  let ?d = "dropWhile (\<lambda>c. c \<noteq> CHR ''.'') body"
  have ne: "?d \<noteq> []" using assms by (simp add: dropWhile_eq_Nil_conv)
  then have "\<not> (hd ?d \<noteq> CHR ''.'')" by (rule hd_dropWhile)
  then have "?d = CHR ''.'' # drop 1 ?d" using ne by (cases ?d) auto
  then have "takeWhile (\<lambda>c. c \<noteq> CHR ''.'') body @ ''.'' @ drop 1 ?d
             = takeWhile (\<lambda>c. c \<noteq> CHR ''.'') body @ ?d" by simp
  then show ?thesis by simp
qed

lemma dot_join:
  assumes "\<And>x. x \<in> set ip \<Longrightarrow> x \<noteq> CHR ''.''"
  shows "takeWhile (\<lambda>c. c \<noteq> CHR ''.'') (ip @ ''.'' @ r) = ip"
    and "drop 1 (dropWhile (\<lambda>c. c \<noteq> CHR ''.'') (ip @ ''.'' @ r)) = r"
  using assms by simp_all

lemma e_split_hd: "dropWhile (\<lambda>c. \<not> is_e c) r = [] \<or> is_e (hd (dropWhile (\<lambda>c. \<not> is_e c) r))"
  using hd_dropWhile[of "\<lambda>c. \<not> is_e c" r] by blast

lemma e_join:
  assumes "\<And>x. x \<in> set fp \<Longrightarrow> \<not> is_e x" "ex = [] \<or> is_e (hd ex)"
  shows "takeWhile (\<lambda>c. \<not> is_e c) (fp @ ex) = fp"
    and "dropWhile (\<lambda>c. \<not> is_e c) (fp @ ex) = ex"
  using assms by (cases ex; simp)+

lemma sign_factor_neg: "is_sign sg \<Longrightarrow> (sign_factor sg < 0) = (sg = ''-'')"
  by (auto simp: sign_factor_def)


lemma py_float_unfold:
  assumes "split_sign (num_strip s) = (sgv, body)"
  shows "py_float s =
     (if CHR ''.'' \<notin> set body \<or>
         (takeWhile (\<lambda>c. c \<noteq> CHR ''.'') body = [] \<and>
          takeWhile (\<lambda>c. \<not> is_e c) (drop 1 (dropWhile (\<lambda>c. c \<noteq> CHR ''.'') body)) = [])
      then None
      else
        (case (opt_digitpart (takeWhile (\<lambda>c. c \<noteq> CHR ''.'') body),
               opt_digitpart (takeWhile (\<lambda>c. \<not> is_e c) (drop 1 (dropWhile (\<lambda>c. c \<noteq> CHR ''.'') body))),
               float_exponent (dropWhile (\<lambda>c. \<not> is_e c) (drop 1 (dropWhile (\<lambda>c. c \<noteq> CHR ''.'') body)))) of
           (Some ids, Some fds, Some e) \<Rightarrow>
             Some (round64 (sgv < 0)
                    (of_nat (digits_value (ids @ fds)) * pow10 (e - int (length fds))))
         | _ \<Rightarrow> None))"
  using assms by (simp add: py_float_def Let_def)

lemma py_float_iff: "py_float s = Some f \<longleftrightarrow> float_literal s f"
proof
  assume a: "py_float s = Some f"
  obtain sgv body where sp: "split_sign (num_strip s) = (sgv, body)"
    by (cases "split_sign (num_strip s)")
  let ?ip = "takeWhile (\<lambda>c. c \<noteq> CHR ''.'') body"
  let ?rest = "drop 1 (dropWhile (\<lambda>c. c \<noteq> CHR ''.'') body)"
  let ?fp = "takeWhile (\<lambda>c. \<not> is_e c) ?rest"
  let ?ex = "dropWhile (\<lambda>c. \<not> is_e c) ?rest"
  note u = py_float_unfold[OF sp]
  from a u have dot: "CHR ''.'' \<in> set body" and ne: "?ip \<noteq> [] \<or> ?fp \<noteq> []"
    by (auto split: if_splits)
  from a u dot ne obtain ids fds e where
    p: "opt_digitpart ?ip = Some ids" "opt_digitpart ?fp = Some fds" "float_exponent ?ex = Some e"
       "f = round64 (sgv < 0) (of_nat (digits_value (ids @ fds)) * pow10 (e - int (length fds)))"
    by (auto split: if_splits option.splits)
  from split_sign_decompose[OF sp] obtain sg where
    sg: "is_sign sg" "num_strip s = sg @ body" "sgv = sign_factor sg" by blast
  from num_strip_decompose[of s] obtain l t where
    lt: "s = l @ num_strip s @ t" "set l \<subseteq> set num_whitespace" "set t \<subseteq> set num_whitespace"
    by blast
  have b: "body = ?ip @ ''.'' @ ?rest" using dot by (rule dot_split)
  have r: "?rest = ?fp @ ?ex" by simp
  have "body = ?ip @ ''.'' @ ?fp @ ?ex" using b r by metis
  then have s: "s = l @ sg @ ?ip @ ''.'' @ ?fp @ ?ex @ t" using lt(1) sg(2) by simp
  have ex: "exponent_part ?ex e"
    using float_exponent_iff[OF e_split_hd[of ?rest], of e] p(3) by simp
  have f: "f = round64 (sg = ''-'')
              (of_nat (digits_value (ids @ fds)) * pow10 (e - int (length fds)))"
    using p(4) sg(1,3) sign_factor_neg by simp
  show "float_literal s f"
    unfolding float_literal_def
    using s lt(2,3) sg(1) p(1,2)[unfolded opt_digitpart_iff] ne ex f by blast
next
  assume "float_literal s f"
  then obtain l sg ip fp ex t ids fds e where
    d: "s = l @ sg @ ip @ ''.'' @ fp @ ex @ t"
       "set l \<subseteq> set num_whitespace" "set t \<subseteq> set num_whitespace" "is_sign sg"
       "opt_digit_run ip ids" "opt_digit_run fp fds" "ip \<noteq> [] \<or> fp \<noteq> []"
       "exponent_part ex e"
       "f = round64 (sg = ''-'')
              (of_nat (digits_value (ids @ fds)) * pow10 (e - int (length fds)))"
    unfolding float_literal_def by blast
  let ?body = "ip @ ''.'' @ fp @ ex"
  let ?m = "sg @ ?body"
  have lit: "\<And>x. x \<in> set ?m \<Longrightarrow> x \<in> set literal_chars"
    using is_sign_literal[OF d(4)] opt_digit_run_literal[OF d(5)] opt_digit_run_literal[OF d(6)]
      exponent_part_literal[OF d(8)] sign_dot_literal(3) by auto
  have mne: "?m \<noteq> []" by simp
  have "hd ?m \<in> set ?m" "last ?m \<in> set ?m" using mne by (rule hd_in_set, rule last_in_set)
  then have sp: "\<not> num_isspace (hd ?m)" "\<not> num_isspace (last ?m)"
    using lit literal_chars_not_space by blast+
  have "s = l @ ?m @ t" using d(1) by simp
  with num_strip_core[OF d(2,3) mne sp] have st: "num_strip s = ?m" by simp
  have bne: "?body \<noteq> []" by simp
  have hb: "hd ?body \<noteq> CHR ''-'' \<and> hd ?body \<noteq> CHR ''+''"
  proof (cases "ip = []")
    case True
    then show ?thesis by simp
  next
    case False
    with d(5) have "digit_run ip ids" by (simp add: opt_digit_run_def)
    then have "hd ip \<in> set digit_chars" by (rule digit_run_hd_char)
    then show ?thesis using False digit_chars_other by auto
  qed
  have ss: "split_sign (num_strip s) = (sign_factor sg, ?body)"
    unfolding st using split_sign_compose[OF d(4) bne] hb by blast
  have ipd: "\<And>x. x \<in> set ip \<Longrightarrow> x \<noteq> CHR ''.''" using opt_digit_run_plain[OF d(5)] by blast
  have fpe: "\<And>x. x \<in> set fp \<Longrightarrow> \<not> is_e x" using opt_digit_run_plain[OF d(6)] by blast
  have t1: "takeWhile (\<lambda>c. c \<noteq> CHR ''.'') ?body = ip"
    and t2: "drop 1 (dropWhile (\<lambda>c. c \<noteq> CHR ''.'') ?body) = fp @ ex"
    using dot_join[of ip "fp @ ex"] ipd by blast+
  have t3: "takeWhile (\<lambda>c. \<not> is_e c) (fp @ ex) = fp"
    and t4: "dropWhile (\<lambda>c. \<not> is_e c) (fp @ ex) = ex"
    using e_join[of fp ex] fpe exponent_part_hd[OF d(8)] by blast+
  have fe: "float_exponent ex = Some e"
    using float_exponent_iff[OF exponent_part_hd[OF d(8)], of e] d(8) by simp
  have od: "opt_digitpart ip = Some ids" "opt_digitpart fp = Some fds"
    using d(5,6) by (simp_all add: opt_digitpart_iff)
  have dot: "CHR ''.'' \<in> set ?body" by simp
  show "py_float s = Some f"
    unfolding py_float_unfold[OF ss] t1 t2 t3 t4
    using dot d(7,9) fe od sign_factor_neg[OF d(4)] by simp
qed

section \<open>The parser: scalar coercion\<close>

lemma lower_char_dot: "lower_char (CHR ''.'') = CHR ''.''"
  by (simp add: lower_char_def upper_chars_def lower_chars_def)

lemma dot_in_lower: "CHR ''.'' \<in> set v \<Longrightarrow> CHR ''.'' \<in> set (lower v)"
  unfolding lower_def using lower_char_dot by force

lemma lower_char_id: "c \<notin> set upper_chars \<Longrightarrow> lower_char c = c"
proof -
  assume a: "c \<notin> set upper_chars"
  have "length upper_chars = length lower_chars"
    by (simp add: upper_chars_def lower_chars_def)
  then have "map_of (zip upper_chars lower_chars) c = None"
    using a by simp
  then show ?thesis by (simp add: lower_char_def)
qed

lemma number_chars_disjoint:
  "set (num_whitespace @ ''-+'' @ digit_chars) \<inter> (set upper_chars \<union> set ''tfn'') = {}"
  by (simp add: num_whitespace_def upper_chars_def digit_chars_def)

lemma lower_char_not_letter:
  assumes "num_isspace c \<or> c = CHR ''-'' \<or> c = CHR ''+'' \<or> digit_val c \<noteq> None"
  shows "lower_char c \<notin> set ''tfn''"
proof -
  have "c \<in> set (num_whitespace @ ''-+'' @ digit_chars)"
    using assms digit_val_chars[of c] unfolding num_isspace_def by auto
  with number_chars_disjoint have "c \<notin> set upper_chars" "c \<notin> set ''tfn''" by blast+
  then show ?thesis by (simp add: lower_char_id)
qed

lemma num_strip_Cons:
  "\<not> num_isspace c \<Longrightarrow>
   num_strip (c # cs) =
     c # (if \<forall>x\<in>set cs. num_isspace x then [] else rev (dropWhile num_isspace (rev cs)))"
  by (simp add: num_strip_def dropWhile_append)

lemma digitpart_first: "digit_val c = None \<Longrightarrow> digitpart (c # cs) = None"
  by (cases cs) simp_all

lemma py_int_first:
  assumes "\<not> num_isspace c" "c \<noteq> CHR ''-''" "c \<noteq> CHR ''+''" "digit_val c = None"
  shows "py_int (c # cs) = None"
  using assms by (simp add: py_int_def num_strip_Cons digitpart_first)

lemma py_int_word:
  assumes "lower v \<in> {''true'', ''false'', ''none'', ''null''}"
  shows "py_int v = None"
proof -
  obtain c cs where v: "v = c # cs" and l: "lower_char c \<in> set ''tfn''"
    using assms by (cases v) (auto simp: lower_def)
  have "\<not> (num_isspace c \<or> c = CHR ''-'' \<or> c = CHR ''+'' \<or> digit_val c \<noteq> None)"
    using lower_char_not_letter l by blast
  then show ?thesis unfolding v by (intro py_int_first) auto
qed

lemma no_dot_word:
  assumes "lower v \<in> {''true'', ''false'', ''none'', ''null''}"
  shows "CHR ''.'' \<notin> set v"
proof
  assume "CHR ''.'' \<in> set v"
  then have "CHR ''.'' \<in> set (lower v)" by (rule dot_in_lower)
  then show False using assms by auto
qed

lemma int_literal_no_dot: "int_literal s n \<Longrightarrow> CHR ''.'' \<notin> set s"
proof
  assume "int_literal s n" and dot: "CHR ''.'' \<in> set s"
  then obtain l sg body t ds where
    d: "s = l @ sg @ body @ t" "set l \<subseteq> set num_whitespace" "set t \<subseteq> set num_whitespace"
       "is_sign sg" "digit_run body ds"
    unfolding int_literal_def by blast
  have ns: "\<not> num_isspace (CHR ''.'')" using sign_dot_literal(3) by (rule literal_chars_not_space)
  from dot d(1) consider "CHR ''.'' \<in> set l" | "CHR ''.'' \<in> set sg" | "CHR ''.'' \<in> set body"
    | "CHR ''.'' \<in> set t" by auto
  then show False
  proof cases
    case 1
    then show False using d(2) ns by (auto simp: num_isspace_def)
  next
    case 2
    then show False using d(4) by (auto simp: is_sign_def)
  next
    case 3
    then show False using digit_run_plain[OF d(5)] by blast
  next
    case 4
    then show False using d(3) ns by (auto simp: num_isspace_def)
  qed
qed

lemma float_literal_dot: "float_literal s f \<Longrightarrow> CHR ''.'' \<in> set s"
  unfolding float_literal_def by auto

lemma parse_value_cases:
  "parse_value s =
     (if lower s \<in> {''true'', ''false''} then PBool (lower s = ''true'')
      else if CHR ''.'' \<in> set s then
        (case py_float s of Some f \<Rightarrow> PFloat f
         | None \<Rightarrow> if lower s \<in> {''none'', ''null''} then PNone else PStr s)
      else
        (case py_int s of Some n \<Rightarrow> PInt n
         | None \<Rightarrow> if lower s \<in> {''none'', ''null''} then PNone else PStr s))"
  by (simp add: parse_value_def split: option.splits)

lemma round64_five_halves: "round64 False (5 / 2) = Finite False (5 / 2)"
proof -
  have b0: "bit_len 0 = 0" by (simp add: bit_len.simps[of 0])
  have b1: "bit_len (Suc 0) = Suc 0" by (simp add: bit_len.simps[of "Suc 0"] b0)
  have b: "bit_len 2 = 2" by (simp add: bit_len.simps[of 2] b1)
  have f: "\<lfloor>5 / 2 :: rat\<rfloor> = 2" by (rule floor_unique) simp_all
  have fl: "floor_log2 (5 / 2) = 1" by (simp add: floor_log2_def f b)
  have r: "round_half_even 5629499534213120 = 5629499534213120"
    by (simp add: round_half_even_def Let_def)
  show ?thesis
    by (simp add: round64_def fl r Let_def pow2_def)
qed

text \<open>A literal that is not a binary fraction is rounded; the sign of a zero is kept.\<close>

lemma float_one_tenth:
  "py_float ''0.1'' = Some (Finite False (3602879701896397 / 36028797018963968))"
  by code_simp

lemma float_negative_zero: "py_float ''-0.0'' = Some (Finite True 0)"
  by code_simp

text \<open>
  C7, as the code has it. Scalar coercion maps a token that is \<open>true\<close> or \<open>false\<close> in any
  letter case to the boolean, and no other token to a boolean; a token to an integer
  exactly when it is an integer literal (whitespace, an optional sign, decimal digits
  with single underscores allowed between digits, at most 4300 digits, whitespace), and
  then to the integer written; a token to a float exactly when it is a float literal
  with a dot (digits on at least one side of the dot, an optional exponent), and then to
  the binary64 number nearest to the decimal written; a token to null exactly when it is
  \<open>none\<close> or \<open>null\<close> in any letter case; and every other token to itself as a string.
  The line \<open>/x --flag=true --n=3 --f=2.5 --s=none\<close> parses to the keyword arguments
  \<open>flag = True\<close>, \<open>n = 3\<close>, \<open>f = 2.5\<close>, \<open>s = None\<close>.
\<close>

theorem parse_value_coercion:
  "(parse_value s = PBool b \<longleftrightarrow> lower s = (if b then ''true'' else ''false'')) \<and>
   (parse_value s = PInt n \<longleftrightarrow> int_literal s n) \<and>
   (parse_value s = PFloat f \<longleftrightarrow> float_literal s f) \<and>
   (parse_value s = PNone \<longleftrightarrow> lower s \<in> {''none'', ''null''}) \<and>
   (parse_value s = PStr t \<longleftrightarrow>
      t = s \<and> lower s \<notin> {''true'', ''false'', ''none'', ''null''} \<and>
      (\<forall>k. \<not> int_literal s k) \<and> (\<forall>g. \<not> float_literal s g)) \<and>
   parse_command_string ''/x --flag=true --n=3 --f=2.5 --s=none'' =
     Inr (Some \<lparr>name = ''x'', args = [],
                kwargs = [(''flag'', PBool True), (''n'', PInt 3),
                          (''f'', PFloat (Finite False (5 / 2))), (''s'', PNone)],
                raw_input = ''/x --flag=true --n=3 --f=2.5 --s=none''\<rparr>)"
proof -
  note pv = parse_value_cases[of s]
  have w: "lower s \<in> {''true'', ''false'', ''none'', ''null''} \<Longrightarrow>
           py_int s = None \<and> CHR ''.'' \<notin> set s"
    using py_int_word[of s] no_dot_word[of s] by blast
  have il: "\<And>k. int_literal s k \<longleftrightarrow> py_int s = Some k" by (simp add: py_int_iff)
  have fl: "\<And>g. float_literal s g \<longleftrightarrow> py_float s = Some g" by (simp add: py_float_iff)
  have nd: "\<And>k. py_int s = Some k \<Longrightarrow> CHR ''.'' \<notin> set s"
    using int_literal_no_dot il by blast
  have fd: "\<And>g. float_literal s g \<Longrightarrow> CHR ''.'' \<in> set s" by (rule float_literal_dot)
  have c1: "parse_value s = PBool b \<longleftrightarrow> lower s = (if b then ''true'' else ''false'')"
    unfolding pv by (auto split: option.splits)
  have c2: "parse_value s = PInt n \<longleftrightarrow> int_literal s n"
    unfolding pv il using w nd[of n] by (auto split: option.splits)
  have c3: "parse_value s = PFloat f \<longleftrightarrow> float_literal s f"
  proof (cases "CHR ''.'' \<in> set s")
    case True
    then show ?thesis unfolding pv fl using w by (auto split: option.splits)
  next
    case False
    then have "\<not> float_literal s f" using fd by blast
    then show ?thesis unfolding pv using False by (auto split: option.splits)
  qed
  have c4: "parse_value s = PNone \<longleftrightarrow> lower s \<in> {''none'', ''null''}"
  proof (cases "lower s \<in> {''none'', ''null''}")
    case True
    then have "py_int s = None" "CHR ''.'' \<notin> set s" using w by auto
    then show ?thesis unfolding pv using True by auto
  next
    case False
    then show ?thesis unfolding pv by (auto split: option.splits)
  qed
  have c5: "parse_value s = PStr t \<longleftrightarrow>
      t = s \<and> lower s \<notin> {''true'', ''false'', ''none'', ''null''} \<and>
      (\<forall>k. \<not> int_literal s k) \<and> (\<forall>g. \<not> float_literal s g)"
  proof (cases "CHR ''.'' \<in> set s")
    case True
    then have "\<forall>k. \<not> int_literal s k" using int_literal_no_dot by blast
    then show ?thesis unfolding pv fl using True by (auto split: option.splits)
  next
    case False
    then have "\<forall>g. \<not> float_literal s g" using fd by blast
    then show ?thesis unfolding pv il using False by (auto split: option.splits)
  qed
  have c6: "parse_command_string ''/x --flag=true --n=3 --f=2.5 --s=none'' =
     Inr (Some \<lparr>name = ''x'', args = [],
                kwargs = [(''flag'', PBool True), (''n'', PInt 3),
                          (''f'', PFloat (Finite False (5 / 2))), (''s'', PNone)],
                raw_input = ''/x --flag=true --n=3 --f=2.5 --s=none''\<rparr>)"
    by (simp add: parse_eval round64_five_halves)
  from c1 c2 c3 c4 c5 c6 show ?thesis by blast
qed

theorem parse_value_coercion_witness:
  "parse_value ''TRUE'' = PBool True \<and>
   parse_value '' -4_2'' = PInt (- 42) \<and>
   parse_value ''2.5'' = PFloat (Finite False (5 / 2)) \<and>
   parse_value ''Null'' = PNone \<and>
   parse_value ''abc'' = PStr ''abc''"
proof -
  have l: "lower ''TRUE'' = ''true''" "lower ''Null'' = ''null''" "lower ''abc'' = ''abc''"
    by (simp_all add: lower_def lower_char_def upper_chars_def lower_chars_def)
  have dv: "digit_val (CHR ''4'') = Some 4" "digit_val (CHR ''2'') = Some 2"
    "digit_val (CHR ''5'') = Some 5"
    by (simp_all add: digit_val_def)
  have r42: "digit_run ''4_2'' [4, 2]"
    using digit_run_underscore[OF dv(1) digit_run_one[OF dv(2)]] by simp
  have "'' -4_2'' = '' '' @ ''-'' @ ''4_2'' @ [] \<and> set '' '' \<subseteq> set num_whitespace \<and>
        set ([] :: string) \<subseteq> set num_whitespace \<and> is_sign ''-'' \<and> digit_run ''4_2'' [4, 2] \<and>
        length [4 :: nat, 2] \<le> 4300 \<and> (- 42 :: int) = sign_factor ''-'' * int (digits_value [4, 2])"
    using r42 by (simp add: num_whitespace_def is_sign_def sign_factor_def digits_value_def)
  then have i: "int_literal '' -4_2'' (- 42)" unfolding int_literal_def by blast
  have "''2.5'' = [] @ [] @ ''2'' @ ''.'' @ ''5'' @ [] @ [] \<and>
        set ([] :: string) \<subseteq> set num_whitespace \<and> set ([] :: string) \<subseteq> set num_whitespace \<and>
        is_sign [] \<and> opt_digit_run ''2'' [2] \<and> opt_digit_run ''5'' [5] \<and>
        (''2'' \<noteq> [] \<or> ''5'' \<noteq> []) \<and> exponent_part [] 0 \<and>
        Finite False (5 / 2) = round64 ([] = ''-'')
           (of_nat (digits_value ([2] @ [5])) * pow10 (0 - int (length [5 :: nat])))"
    using digit_run_one[OF dv(2)] digit_run_one[OF dv(3)]
    by (simp add: is_sign_def opt_digit_run_def exponent_part_def digits_value_def pow10_def
        round64_five_halves)
  then have f: "float_literal ''2.5'' (Finite False (5 / 2))"
    unfolding float_literal_def by blast
  have ni: "\<forall>k. \<not> int_literal ''abc'' k"
    unfolding py_int_iff[symmetric]
    by (simp add: py_int_def num_strip_def num_isspace_def num_whitespace_def digit_val_def)
  have nf: "\<forall>g. \<not> float_literal ''abc'' g"
    using float_literal_dot[of "''abc''"] by auto
  show ?thesis
    using parse_value_coercion[of "''TRUE''" True] parse_value_coercion[of "'' -4_2''" _ "- 42"]
      parse_value_coercion[of "''2.5''" _ _ "Finite False (5 / 2)"]
      parse_value_coercion[of "''Null''"]
      parse_value_coercion[of "''abc''" _ _ _ "''abc''"] l i f ni nf
    by simp
qed

text \<open>
  C7, as stated, fails for a numeric token without a dot that is not an integer literal:
  \<open>1e5\<close>, \<open>inf\<close> and \<open>nan\<close> are numbers to \<open>float\<close>, have no dot, and stay strings,
  since a token without a dot is only handed to \<open>int\<close>.
\<close>

theorem dot_free_numeric_counterexample:
  "parse_value ''1e5'' = PStr ''1e5'' \<and> parse_value ''inf'' = PStr ''inf'' \<and>
   parse_value ''nan'' = PStr ''nan''"
  by (simp add: parse_value_def lower_def lower_char_def upper_chars_def lower_chars_def
      py_int_def num_strip_def num_isspace_def num_whitespace_def digit_val_def)

section \<open>The executor: validation\<close>

lemma validate_type_unknown:
  "t \<notin> {''str'', ''int'', ''float'', ''bool'', ''list'', ''dict'', ''any''} \<Longrightarrow> validate_type v t"
  by (simp add: validate_type_def type_map_keys_def)

text \<open>
  C10. A declared type outside \<open>str\<close>, \<open>int\<close>, \<open>float\<close>, \<open>bool\<close>, \<open>list\<close>, \<open>dict\<close>
  and \<open>any\<close>, such as \<open>string\<close>, is never enforced: \<open>_validate_type\<close> accepts every
  value for it, and a command whose parameter \<open>p\<close> declares such a type validates the
  keyword argument \<open>p\<close> whatever its value is.
\<close>

theorem undeclared_type_not_enforced:
  "t \<notin> {''str'', ''int'', ''float'', ''bool'', ''list'', ''dict'', ''any''} \<Longrightarrow>
   parameters (metadata c) = [(p, info)] \<Longrightarrow> ptype info = Some t \<Longrightarrow>
   validate_type v t \<and>
   validate_command_arguments \<lparr>name = nm, args = as, kwargs = [(p, v)], raw_input = raw\<rparr> c
     = \<lparr>valid = True, verror = None\<rparr>"
  by (simp add: validate_type_def type_map_keys_def validate_command_arguments_def
      required_errors_def type_errors_def has_key_def expected_type_of_def)

theorem undeclared_type_not_enforced_witness:
  "validate_type (PInt 3) ''string'' \<and>
   validate_command_arguments
     \<lparr>name = ''echo'', args = [], kwargs = [(''msg'', PInt 3)], raw_input = ''/echo --msg=3''\<rparr>
     (echo_command [(''msg'', \<lparr>ptype = Some ''string'', required = Some True, default_value = None\<rparr>)])
     = \<lparr>valid = True, verror = None\<rparr>"
  using undeclared_type_not_enforced[where t = "''string''" and v = "PInt 3" and nm = "''echo''"
      and as = "[]" and p = "''msg''" and raw = "''/echo --msg=3''"
      and info = "\<lparr>ptype = Some ''string'', required = Some True, default_value = None\<rparr>"
      and c = "echo_command [(''msg'', \<lparr>ptype = Some ''string'', required = Some True, default_value = None\<rparr>)]"]
  by (simp add: echo_command_def)

lemma sublist_join: "m \<in> set xs \<Longrightarrow> sublist m (join sep xs)"
proof (induction sep xs rule: join.induct)
  case (1 sep)
  then show ?case by simp
next
  case (2 sep x)
  then show ?case by simp
next
  case (3 sep x y ys)
  show ?case
  proof (cases "m = x")
    case True
    then show ?thesis by simp
  next
    case False
    with 3 have "sublist m (join sep (y # ys))" by simp
    then obtain ps ss where "join sep (y # ys) = ps @ m @ ss" by (auto simp: sublist_def)
    then have "join sep (x # y # ys) = (x @ sep @ ps) @ m @ ss" by simp
    then show ?thesis unfolding sublist_def by blast
  qed
qed

lemma missing_in_required_errors:
  "(pn, info) \<in> set params \<Longrightarrow> is_required info \<Longrightarrow> \<not> has_key (kwargs parsed) pn \<Longrightarrow>
   args parsed = [] \<Longrightarrow> missing_msg pn \<in> set (required_errors parsed params)"
  by (force simp: required_errors_def)

lemma mismatch_in_type_errors:
  "(k, v) \<in> set (kwargs parsed) \<Longrightarrow> map_of params k = Some info \<Longrightarrow>
   \<not> validate_type v (expected_type_of info) \<Longrightarrow>
   type_msg k (expected_type_of info) \<in> set (type_errors parsed params)"
  by (force simp: type_errors_def)

lemma validate_invalid:
  assumes "m \<in> set (required_errors parsed (parameters (metadata command))
                    @ type_errors parsed (parameters (metadata command)))"
    and "parameters (metadata command) \<noteq> []"
  shows "\<not> valid (validate_command_arguments parsed command) \<and>
         (\<exists>msg. verror (validate_command_arguments parsed command) = Some msg \<and> sublist m msg)"
proof -
  let ?errs = "required_errors parsed (parameters (metadata command))
                    @ type_errors parsed (parameters (metadata command))"
  have ne: "?errs \<noteq> []" using assms(1) by auto
  have "validate_command_arguments parsed command = \<lparr>valid = False, verror = Some (join ''; '' ?errs)\<rparr>"
    using ne assms(2) by (simp add: validate_command_arguments_def Let_def)
  then show ?thesis using sublist_join[OF assms(1)] by simp
qed


text \<open>
  C5, as the code has it. Validation fails whenever a required parameter is absent from
  the keyword arguments while no positional argument is given, and whenever a keyword
  argument's value is not an instance of its declared type, for the declared types
  \<open>str\<close>, \<open>int\<close>, \<open>float\<close>, \<open>bool\<close>, \<open>list\<close> and \<open>dict\<close> (a boolean is an instance of
  \<open>int\<close>). The violations are accumulated: the one error message contains the message
  of every such missing parameter and of every such mismatch.
\<close>

theorem validation_accumulates:
  "(\<forall>(pn, info) \<in> set (parameters (metadata command)).
      is_required info \<and> \<not> has_key (kwargs parsed) pn \<and> args parsed = [] \<longrightarrow>
        \<not> valid (validate_command_arguments parsed command) \<and>
        (\<exists>msg. verror (validate_command_arguments parsed command) = Some msg \<and>
               sublist (missing_msg pn) msg)) \<and>
   (\<forall>(k, v) \<in> set (kwargs parsed). \<forall>info.
      map_of (parameters (metadata command)) k = Some info \<and>
      expected_type_of info \<in> set type_map_keys \<and> \<not> isinstance_of v (expected_type_of info) \<longrightarrow>
        \<not> valid (validate_command_arguments parsed command) \<and>
        (\<exists>msg. verror (validate_command_arguments parsed command) = Some msg \<and>
               sublist (type_msg k (expected_type_of info)) msg))"
proof (intro conjI ballI)
  fix x assume x: "x \<in> set (parameters (metadata command))"
  obtain pn info where xe: "x = (pn, info)" by (cases x)
  have ne: "parameters (metadata command) \<noteq> []" using x by auto
  show "case x of (pn, info) \<Rightarrow>
      is_required info \<and> \<not> has_key (kwargs parsed) pn \<and> args parsed = [] \<longrightarrow>
        \<not> valid (validate_command_arguments parsed command) \<and>
        (\<exists>msg. verror (validate_command_arguments parsed command) = Some msg \<and>
               sublist (missing_msg pn) msg)"
    unfolding xe prod.case
  proof
    assume a: "is_required info \<and> \<not> has_key (kwargs parsed) pn \<and> args parsed = []"
    have "missing_msg pn \<in> set (required_errors parsed (parameters (metadata command)))"
      using missing_in_required_errors[of pn info] x xe a by blast
    then show "\<not> valid (validate_command_arguments parsed command) \<and>
        (\<exists>msg. verror (validate_command_arguments parsed command) = Some msg \<and>
               sublist (missing_msg pn) msg)"
      using validate_invalid[of "missing_msg pn" parsed command] ne by simp
  qed
next
  fix x assume x: "x \<in> set (kwargs parsed)"
  obtain k v where xe: "x = (k, v)" by (cases x)
  show "case x of (k, v) \<Rightarrow> \<forall>info.
      map_of (parameters (metadata command)) k = Some info \<and>
      expected_type_of info \<in> set type_map_keys \<and> \<not> isinstance_of v (expected_type_of info) \<longrightarrow>
        \<not> valid (validate_command_arguments parsed command) \<and>
        (\<exists>msg. verror (validate_command_arguments parsed command) = Some msg \<and>
               sublist (type_msg k (expected_type_of info)) msg)"
    unfolding xe prod.case
  proof (intro allI impI)
    fix info
    assume a: "map_of (parameters (metadata command)) k = Some info \<and>
      expected_type_of info \<in> set type_map_keys \<and> \<not> isinstance_of v (expected_type_of info)"
    then have ne: "parameters (metadata command) \<noteq> []" by auto
    have nv: "\<not> validate_type v (expected_type_of info)"
      using a by (auto simp: validate_type_def type_map_keys_def)
    have "type_msg k (expected_type_of info) \<in> set (type_errors parsed (parameters (metadata command)))"
      using mismatch_in_type_errors[of k v parsed _ info] x xe a nv by blast
    then show "\<not> valid (validate_command_arguments parsed command) \<and>
        (\<exists>msg. verror (validate_command_arguments parsed command) = Some msg \<and>
               sublist (type_msg k (expected_type_of info)) msg)"
      using validate_invalid[of "type_msg k (expected_type_of info)" parsed command] ne by simp
  qed
qed


theorem validation_accumulates_witness:
  "\<not> valid (validate_command_arguments
       \<lparr>name = ''echo'', args = [], kwargs = [(''b'', PInt 3)], raw_input = ''/echo --b=3''\<rparr>
       (echo_command two_required)) \<and>
   (\<exists>msg. verror (validate_command_arguments
       \<lparr>name = ''echo'', args = [], kwargs = [(''b'', PInt 3)], raw_input = ''/echo --b=3''\<rparr>
       (echo_command two_required)) = Some msg \<and> sublist (missing_msg ''a'') msg) \<and>
   (\<exists>msg. verror (validate_command_arguments
       \<lparr>name = ''echo'', args = [], kwargs = [(''b'', PInt 3)], raw_input = ''/echo --b=3''\<rparr>
       (echo_command two_required)) = Some msg \<and> sublist (type_msg ''b'' ''str'') msg)"
  using validation_accumulates[of "echo_command two_required"
      "\<lparr>name = ''echo'', args = [], kwargs = [(''b'', PInt 3)], raw_input = ''/echo --b=3''\<rparr>"]
  by (simp add: echo_command_def two_required_def has_key_def is_required_def
      expected_type_of_def type_map_keys_def)

text \<open>Two required parameters, neither supplied: the message names both.\<close>

lemma both_missing:
  "validate_command_arguments
     \<lparr>name = ''echo'', args = [], kwargs = [], raw_input = ''/echo''\<rparr> (echo_command two_required)
   = \<lparr>valid = False,
      verror = Some (''Required parameter '' @ [CHR 0x27] @ ''a'' @ [CHR 0x27] @ '' is missing; ''
                     @ ''Required parameter '' @ [CHR 0x27] @ ''b'' @ [CHR 0x27] @ '' is missing'')\<rparr>"
  by (simp add: echo_command_def two_required_def validate_command_arguments_def
      required_errors_def type_errors_def has_key_def is_required_def missing_msg_def)

text \<open>
  C5, as stated, fails in both halves. A declared type that is not one of the six names
  is not checked: the parameter \<open>msg\<close> is declared \<open>string\<close>, the keyword argument \<open>msg\<close>
  is the integer 3, and validation succeeds. And one positional argument silences the
  check of every required parameter: with the two required parameters \<open>a\<close> and \<open>b\<close>
  and the single positional argument of \<open>/echo 1\<close>, validation succeeds although at most
  one of them is supplied.
\<close>

theorem validation_counterexample:
  "valid (validate_command_arguments
     \<lparr>name = ''echo'', args = [], kwargs = [(''msg'', PInt 3)], raw_input = ''/echo --msg=3''\<rparr>
     (echo_command [(''msg'', \<lparr>ptype = Some ''string'', required = Some True, default_value = None\<rparr>)])) \<and>
   valid (validate_command_arguments
     \<lparr>name = ''echo'', args = [PInt 1], kwargs = [], raw_input = ''/echo 1''\<rparr>
     (echo_command two_required))"
  by (simp add: echo_command_def two_required_def validate_command_arguments_def
      required_errors_def type_errors_def
      has_key_def is_required_def expected_type_of_def validate_type_def type_map_keys_def)

text \<open>The second input is what the parser gives for \<open>/echo 1\<close>.\<close>

lemma echo_one_parses:
  "parse_command_string ''/echo 1'' =
     Inr (Some \<lparr>name = ''echo'', args = [PInt 1], kwargs = [], raw_input = ''/echo 1''\<rparr>)"
  by (simp add: parse_eval)

section \<open>The registry: keys, aliases and entries\<close>

lemma has_key_map_of: "has_key d k \<longleftrightarrow> map_of d k \<noteq> None"
  by (simp add: has_key_def map_of_eq_None_iff)

lemma map_of_register_aliases:
  "map_of (register_aliases p als cmds) k =
     (case map_of cmds k of Some q \<Rightarrow> Some q | None \<Rightarrow> if k \<in> set als then Some p else None)"
  unfolding register_aliases_def
proof (induction als arbitrary: cmds)
  case Nil
  then show ?case by (simp split: option.splits)
next
  case (Cons a als)
  show ?case
  proof (cases "has_key cmds a")
    case True
    then have "map_of cmds a \<noteq> None" by (simp add: has_key_map_of)
    with True show ?thesis by (auto simp: Cons.IH split: option.splits)
  next
    case False
    then have "map_of cmds a = None" by (simp add: has_key_map_of)
    with False show ?thesis by (auto simp: Cons.IH update_conv' split: option.splits)
  qed
qed

lemma map_of_remove_keys:
  "map_of (remove_keys ks cmds) k = (if k \<in> set ks then None else map_of cmds k)"
  unfolding remove_keys_def
proof (induction ks arbitrary: cmds)
  case Nil
  then show ?case by simp
next
  case (Cons a ks)
  show ?case
  proof (cases "has_key cmds a")
    case True
    then show ?thesis by (auto simp: Cons.IH delete_conv')
  next
    case False
    then have "map_of cmds a = None" by (simp add: has_key_map_of)
    with False show ?thesis by (auto simp: Cons.IH)
  qed
qed

lemma has_key_get_command: "has_key (commands r) k \<longleftrightarrow> get_command r k \<noteq> None"
  by (simp add: has_key_map_of get_command_def)

lemma get_command_register:
  "get_command (register_command r n h descr cat als params exs tgs req hid ver t1 t2) k =
     (if k = n then Some (next_ref r)
      else case get_command r k of
             Some q \<Rightarrow> Some q
           | None \<Rightarrow> if k \<in> set (or_empty als) then Some (next_ref r) else None)"
  by (simp add: get_command_def register_command_def Let_def map_of_register_aliases update_conv')

lemma store_register:
  "store (register_command r n h descr cat als params exs tgs req hid ver t1 t2) =
     (store r)(next_ref r :=
        \<lparr>metadata = \<lparr>md_name = n, description = descr, category = cat, aliases = or_empty als,
                parameters = or_empty params, examples = or_empty exs, version = ver,
                author = ''spec-kit'', tags = or_empty tgs, requires_project = req,
                hidden = hid, created_at = t1, updated_at = t2\<rparr>,
         handler = h,
         module_path = (case handler_module h of None \<Rightarrow> ''unknown'' | Some m \<Rightarrow> m),
         enabled = True\<rparr>)"
  by (simp add: register_command_def Let_def)

lemma commands_set_enabled: "commands (fst (set_enabled r nm b)) = commands r"
  by (simp add: set_enabled_def split: option.splits)

lemma commands_toggles: "commands (toggles r nm bs) = commands r"
  by (induction bs arbitrary: r) (simp_all add: enable_command_def disable_command_def commands_set_enabled)

lemma get_command_toggles: "get_command (toggles r nm bs) k = get_command r k"
  by (simp add: get_command_def commands_toggles)

lemma enabled_toggles:
  "get_command r nm = Some p \<Longrightarrow>
   enabled (store (toggles r nm bs) p) = (if bs = [] then enabled (store r p) else last bs)"
proof (induction bs arbitrary: r)
  case Nil
  then show ?case by simp
next
  case (Cons b bs)
  let ?r1 = "fst (set_enabled r nm b)"
  have g: "get_command ?r1 nm = Some p"
    using Cons.prems by (simp add: get_command_def commands_set_enabled)
  have e: "enabled (store ?r1 p) = b"
    using Cons.prems by (simp add: set_enabled_def)
  have t: "toggles r nm (b # bs) = toggles ?r1 nm bs"
    by (simp add: enable_command_def disable_command_def)
  show ?case unfolding t using Cons.IH[OF g] e by simp
qed

text \<open>
  C4, as the code has it. After \<open>register_command\<close> of the name \<open>n\<close> with the aliases
  \<open>A\<close>, every alias in \<open>A\<close> that was not yet a key of the registry (or is \<open>n\<close> itself)
  is bound to the same object as \<open>n\<close>, and stays so after any sequence of enable and
  disable calls on \<open>n\<close>; the flag those calls set is the one read through either key.
  An alias that was already a key keeps its old binding.
\<close>

theorem alias_consistency:
  assumes "a \<in> set (or_empty als)"
    and "a = n \<or> \<not> has_key (commands r) a"
    and "r' = toggles (register_command r n h descr cat als params exs tgs req hid ver t1 t2) n bs"
  shows "get_command r' a = get_command r' n \<and>
         get_command r' n = Some (next_ref r) \<and>
         map_option (store r') (get_command r' a) = map_option (store r') (get_command r' n) \<and>
         enabled (store r' (next_ref r)) = (if bs = [] then True else last bs)"
proof -
  let ?r1 = "register_command r n h descr cat als params exs tgs req hid ver t1 t2"
  have n: "get_command ?r1 n = Some (next_ref r)" by (simp add: get_command_register)
  have a: "get_command ?r1 a = Some (next_ref r)"
    using assms(1,2) by (auto simp: get_command_register has_key_get_command)
  have e: "enabled (store ?r1 (next_ref r))" by (simp add: store_register)
  show ?thesis
    unfolding assms(3) using n a e enabled_toggles[OF n, of bs]
    by (simp add: get_command_toggles)
qed

text \<open>
  C2, as the code has it. \<open>register_command\<close> of a name \<open>n\<close> binds the key \<open>n\<close> to the
  new entry and binds to it every alias of the new list that is not yet a key; every
  other key already present, hence every alias of an earlier registration of \<open>n\<close>
  whether it is in the new list or not, keeps the binding it had, and the object it is
  bound to is unchanged.
\<close>

theorem reregistration_rebinds_primary:
  assumes "r' = register_command r n h descr cat als params exs tgs req hid ver t1 t2"
  shows "get_command r' n = Some (next_ref r) \<and>
         md_name (metadata (store r' (next_ref r))) = n \<and>
         aliases (metadata (store r' (next_ref r))) = or_empty als \<and>
         handler (store r' (next_ref r)) = h \<and>
         (\<forall>a \<in> set (or_empty als). \<not> has_key (commands r) a \<longrightarrow>
            get_command r' a = Some (next_ref r)) \<and>
         (\<forall>k. has_key (commands r) k \<and> k \<noteq> n \<longrightarrow> get_command r' k = get_command r k) \<and>
         (\<forall>q. q \<noteq> next_ref r \<longrightarrow> store r' q = store r q)"
  unfolding assms
  by (auto simp: get_command_register store_register has_key_get_command
      split: option.splits)

text \<open>
  C9, as the code has it. Let \<open>n\<close> be bound to an entry with the aliases \<open>A\<close>, all of
  them bound to the same entry, and let \<open>n\<close> not occur in \<open>A\<close>. Then
  \<open>unregister_command\<close> on an alias from \<open>A\<close> returns true and removes every key in \<open>A\<close>,
  and \<open>n\<close> is still bound to the entry.
\<close>

theorem unregister_through_alias:
  assumes "get_command r n = Some p"
    and "aliases (metadata (store r p)) = A"
    and "a \<in> set A"
    and "\<forall>b \<in> set A. get_command r b = Some p"
    and "n \<notin> set A"
  shows "snd (unregister_command r a) = True \<and>
         (\<forall>b \<in> set A. get_command (fst (unregister_command r a)) b = None) \<and>
         get_command (fst (unregister_command r a)) n = Some p \<and>
         store (fst (unregister_command r a)) = store r"
proof -
  have ga: "map_of (commands r) a = Some p" using assms(3,4) by (simp add: get_command_def)
  have na: "n \<noteq> a" using assms(3,5) by auto
  show ?thesis
    using ga na assms(1,2,5)
    by (simp add: unregister_command_def Let_def get_command_def map_of_remove_keys)
qed

theorem alias_consistency_witness:
  "get_command (toggles (register_plain new_registry ''n'' (fn 0) [''a'']) ''n'' [False, True, False]) ''a''
     = get_command (toggles (register_plain new_registry ''n'' (fn 0) [''a'']) ''n'' [False, True, False]) ''n'' \<and>
   get_command (toggles (register_plain new_registry ''n'' (fn 0) [''a'']) ''n'' [False, True, False]) ''n''
     = Some 0 \<and>
   \<not> enabled (store (toggles (register_plain new_registry ''n'' (fn 0) [''a'']) ''n'' [False, True, False]) 0)"
  using alias_consistency[where a = "''a''" and als = "Some [''a'']" and n = "''n''"
      and r = new_registry and h = "fn 0" and descr = "''d''" and cat = "''general''"
      and params = None and exs = None and tgs = None and req = False and hid = False
      and ver = "''1.0.0''" and ?t1.0 = 0 and ?t2.0 = 0 and bs = "[False, True, False]"
      and r' = "toggles (register_plain new_registry ''n'' (fn 0) [''a'']) ''n'' [False, True, False]"]
  by (simp add: register_plain_def or_empty_def new_registry_def has_key_def)

text \<open>
  C4, as stated, fails when an alias is already a key: \<open>x\<close> is registered first, then
  \<open>n\<close> with the alias \<open>x\<close>; the key \<open>x\<close> still resolves to the first entry.
\<close>

theorem alias_collision_counterexample:
  "aliases (metadata (store (register_plain (register_plain new_registry ''x'' (fn 0) []) ''n'' (fn 1) [''x'']) 1))
     = [''x''] \<and>
   get_command (register_plain (register_plain new_registry ''x'' (fn 0) []) ''n'' (fn 1) [''x'']) ''n''
     = Some 1 \<and>
   get_command (register_plain (register_plain new_registry ''x'' (fn 0) []) ''n'' (fn 1) [''x'']) ''x''
     = Some 0"
  by (simp add: registry_eval)

theorem reregistration_rebinds_primary_witness:
  "get_command (register_plain (register_plain new_registry ''n'' (fn 0) [''a'', ''b'']) ''n'' (fn 1) [''a'', ''c'']) ''n''
     = Some 1 \<and>
   get_command (register_plain (register_plain new_registry ''n'' (fn 0) [''a'', ''b'']) ''n'' (fn 1) [''a'', ''c'']) ''c''
     = Some 1 \<and>
   get_command (register_plain (register_plain new_registry ''n'' (fn 0) [''a'', ''b'']) ''n'' (fn 1) [''a'', ''c'']) ''a''
     = get_command (register_plain new_registry ''n'' (fn 0) [''a'', ''b'']) ''a'' \<and>
   get_command (register_plain (register_plain new_registry ''n'' (fn 0) [''a'', ''b'']) ''n'' (fn 1) [''a'', ''c'']) ''b''
     = get_command (register_plain new_registry ''n'' (fn 0) [''a'', ''b'']) ''b''"
proof -
  have k: "next_ref (register_plain new_registry ''n'' (fn 0) [''a'', ''b'']) = 1"
    "commands (register_plain new_registry ''n'' (fn 0) [''a'', ''b''])
       = [(''n'', 0), (''a'', 0), (''b'', 0)]"
    by (simp_all add: registry_eval)
  show ?thesis
    using reregistration_rebinds_primary[where
        r = "register_plain new_registry ''n'' (fn 0) [''a'', ''b'']" and n = "''n''"
        and h = "fn 1" and descr = "''d''" and cat = "''general''" and als = "Some [''a'', ''c'']"
        and params = None and exs = None and tgs = None and req = False and hid = False
        and ver = "''1.0.0''" and ?t1.0 = 0 and ?t2.0 = 0
        and r' = "register_plain (register_plain new_registry ''n'' (fn 0) [''a'', ''b'']) ''n'' (fn 1) [''a'', ''c'']"]
      k
    by (simp add: register_plain_def or_empty_def has_key_def)
qed

text \<open>
  C2, as stated, fails: \<open>n\<close> is registered with the aliases \<open>a\<close> and \<open>b\<close>, then again
  with \<open>a\<close> and \<open>c\<close>. Afterwards the stale alias \<open>b\<close> is still a key, and \<open>a\<close>, which is
  in the new list, resolves to the first entry, not to the new one.
\<close>

theorem stale_alias_counterexample:
  "get_command (register_plain (register_plain new_registry ''n'' (fn 0) [''a'', ''b'']) ''n'' (fn 1) [''a'', ''c'']) ''n''
     = Some 1 \<and>
   get_command (register_plain (register_plain new_registry ''n'' (fn 0) [''a'', ''b'']) ''n'' (fn 1) [''a'', ''c'']) ''a''
     = Some 0 \<and>
   get_command (register_plain (register_plain new_registry ''n'' (fn 0) [''a'', ''b'']) ''n'' (fn 1) [''a'', ''c'']) ''b''
     = Some 0 \<and>
   handler (store (register_plain (register_plain new_registry ''n'' (fn 0) [''a'', ''b'']) ''n'' (fn 1) [''a'', ''c'']) 0)
     = fn 0"
  by (simp add: registry_eval)

theorem unregister_through_alias_witness:
  "snd (unregister_command (register_plain new_registry ''n'' (fn 0) [''a'', ''b'']) ''a'') \<and>
   get_command (fst (unregister_command (register_plain new_registry ''n'' (fn 0) [''a'', ''b'']) ''a'')) ''a'' = None \<and>
   get_command (fst (unregister_command (register_plain new_registry ''n'' (fn 0) [''a'', ''b'']) ''a'')) ''b'' = None \<and>
   get_command (fst (unregister_command (register_plain new_registry ''n'' (fn 0) [''a'', ''b'']) ''a'')) ''n'' = Some 0"
proof -
  have k: "commands (register_plain new_registry ''n'' (fn 0) [''a'', ''b''])
       = [(''n'', 0), (''a'', 0), (''b'', 0)]"
    "aliases (metadata (store (register_plain new_registry ''n'' (fn 0) [''a'', ''b'']) 0)) = [''a'', ''b'']"
    by (simp_all add: registry_eval)
  show ?thesis
    using unregister_through_alias[where r = "register_plain new_registry ''n'' (fn 0) [''a'', ''b'']"
        and n = "''n''" and p = 0 and A = "[''a'', ''b'']" and a = "''a''"] k
    by (simp add: get_command_def)
qed

text \<open>
  C9, as stated, fails when the name is also listed among its own aliases: \<open>n\<close> is
  registered with the aliases \<open>n\<close> and \<open>m\<close>, both keys resolve to the entry, and
  \<open>unregister_command\<close> on \<open>m\<close> removes the key \<open>n\<close> as well.
\<close>

theorem self_alias_counterexample:
  "get_command (register_plain new_registry ''n'' (fn 0) [''n'', ''m'']) ''n'' = Some 0 \<and>
   get_command (register_plain new_registry ''n'' (fn 0) [''n'', ''m'']) ''m'' = Some 0 \<and>
   aliases (metadata (store (register_plain new_registry ''n'' (fn 0) [''n'', ''m'']) 0)) = [''n'', ''m''] \<and>
   snd (unregister_command (register_plain new_registry ''n'' (fn 0) [''n'', ''m'']) ''m'') \<and>
   get_command (fst (unregister_command (register_plain new_registry ''n'' (fn 0) [''n'', ''m'']) ''m'')) ''n''
     = None"
  by (simp add: registry_eval Let_def)

section \<open>The executor: exceptions\<close>

lemma execute_command_raises:
  "execute_command hs r nm as kw ctx = Inl e \<Longrightarrow>
   caught_by_except_Exception e \<or> (\<exists>i. hs i as kw = Inl e)"
  by (auto simp: execute_command_def Let_def split: option.splits if_splits sum.splits)

lemma except_Exception_Inl:
  "except_Exception f body = Inl e \<Longrightarrow> body = Inl e \<and> \<not> caught_by_except_Exception e"
  by (auto simp: except_Exception_def split: sum.splits if_splits)

lemma execute_parsed_command_raises:
  assumes "execute_parsed_command hs r parsed ctx = Inl e"
  shows "\<not> caught_by_except_Exception e \<and> (\<exists>i. hs i (args parsed) (kwargs parsed) = Inl e)"
proof -
  from assms have nc: "\<not> caught_by_except_Exception e"
    unfolding execute_parsed_command_def by (auto dest: except_Exception_Inl)
  from assms have "execute_command hs r (name parsed) (args parsed) (kwargs parsed) ctx = Inl e"
    unfolding execute_parsed_command_def
    by (auto dest!: except_Exception_Inl simp: Let_def split: option.splits if_splits sum.splits)
  with execute_command_raises nc show ?thesis by blast
qed

lemma shlex_run_raises:
  "shlex_run st tok q s = Inl e \<Longrightarrow> caught_by_except_Exception e"
  by (induction st tok q s rule: shlex_run.induct)
     (auto simp: emit_def split: if_splits sum.splits)

lemma parse_raises_ValueError:
  "parse_command_string s = Inl e \<Longrightarrow> caught_by_except_Exception e"
  by (auto simp: parse_command_string_def parse_opencode_command_def parse_simple_command_def
      shlex_split_def Let_def dest: shlex_run_raises split: if_splits sum.splits list.splits prod.splits)

lemma execute_string_raises:
  assumes "execute_string hs r s ctx t0 t1 = Inl e"
  shows "\<not> caught_by_except_Exception e \<and> (\<exists>i as kw. hs i as kw = Inl e)"
proof -
  from assms have nc: "\<not> caught_by_except_Exception e"
    unfolding execute_string_def by (auto dest: except_Exception_Inl)
  from assms have "\<exists>parsed. execute_parsed_command hs r parsed ctx = Inl e"
    unfolding execute_string_def
    using nc parse_raises_ValueError[of s e]
    by (auto dest!: except_Exception_Inl split: sum.splits option.splits)
  with execute_parsed_command_raises nc show ?thesis by blast
qed

lemma execute_parsed_command_handler_raises:
  assumes "get_command r (name parsed) = Some p"
    and "enabled (store r p)"
    and "requires_project (metadata (store r p)) \<longrightarrow> has_project_path (or_empty ctx)"
    and "valid (validate_command_arguments parsed (store r p))"
    and "hs (handler_id (handler (store r p))) (args parsed) (kwargs parsed) = Inl e"
    and "caught_by_except_Exception e"
  shows "execute_parsed_command hs r parsed ctx =
     Inr (failure (''Command execution failed: '' @ ''Command '' @ [CHR 0x27] @ name parsed
                   @ [CHR 0x27] @ '' execution failed: '' @ exc_str e) (name parsed))"
proof -
  have np: "has_project_path (or_empty ctx) \<Longrightarrow> or_empty ctx \<noteq> []"
    by (auto simp: has_project_path_def)
  have ec: "execute_command hs r (name parsed) (args parsed) (kwargs parsed) ctx =
      Inl (PyExc RuntimeError (''Command '' @ [CHR 0x27] @ name parsed @ [CHR 0x27]
            @ '' execution failed: '' @ exc_str e))"
    using assms by (auto simp: execute_command_def Let_def)
  show ?thesis
    using assms(1-4) np ec
    by (auto simp: execute_parsed_command_def Let_def except_Exception_def)
qed

text \<open>
  C1, as the code has it. If every exception a handler raises derives from
  \<open>Exception\<close>, then \<open>execute_string\<close> returns a \<open>CommandResult\<close> for every input text,
  context and registry and does not raise; and whenever the text parses to a command
  that is found, enabled, has its project context and validates, so that the handler is
  called, and the handler raises, the result has \<open>success = False\<close> and its error string
  contains the message of the handler's exception.
\<close>

theorem handler_exception_containment:
  assumes "\<forall>i as kw e. hs i as kw = Inl e \<longrightarrow> caught_by_except_Exception e"
  shows "(\<exists>res. execute_string hs r s ctx t0 t1 = Inr res) \<and>
     (\<forall>parsed p e.
        parse_command_string s = Inr (Some parsed) \<and>
        get_command r (name parsed) = Some p \<and>
        enabled (store r p) \<and>
        (requires_project (metadata (store r p)) \<longrightarrow> has_project_path (or_empty ctx)) \<and>
        valid (validate_command_arguments parsed (store r p)) \<and>
        hs (handler_id (handler (store r p))) (args parsed) (kwargs parsed) = Inl e
        \<longrightarrow> (\<exists>res msg. execute_string hs r s ctx t0 t1 = Inr res \<and> \<not> success res \<and>
               error res = Some msg \<and> sublist (exc_str e) msg))"
proof (intro conjI allI impI)
  show "\<exists>res. execute_string hs r s ctx t0 t1 = Inr res"
  proof (cases "execute_string hs r s ctx t0 t1")
    case (Inl e)
    with execute_string_raises[OF Inl] assms show ?thesis by blast
  next
    case (Inr res)
    then show ?thesis by blast
  qed
next
  fix parsed p e
  assume a: "parse_command_string s = Inr (Some parsed) \<and>
        get_command r (name parsed) = Some p \<and>
        enabled (store r p) \<and>
        (requires_project (metadata (store r p)) \<longrightarrow> has_project_path (or_empty ctx)) \<and>
        valid (validate_command_arguments parsed (store r p)) \<and>
        hs (handler_id (handler (store r p))) (args parsed) (kwargs parsed) = Inl e"
  then have c: "caught_by_except_Exception e" using assms by blast
  let ?msg = "''Command execution failed: '' @ ''Command '' @ [CHR 0x27] @ name parsed
                   @ [CHR 0x27] @ '' execution failed: '' @ exc_str e"
  have "execute_parsed_command hs r parsed ctx = Inr (failure ?msg (name parsed))"
    using execute_parsed_command_handler_raises[of r parsed p ctx hs e] a c by blast
  then have "execute_string hs r s ctx t0 t1 =
      Inr ((failure ?msg (name parsed))\<lparr>execution_time := t1 - t0, result_context := ctx\<rparr>)"
    using a by (simp add: execute_string_def except_Exception_def)
  moreover have "sublist (exc_str e) ?msg"
    unfolding sublist_def by (rule exI[of _ "''Command execution failed: '' @ ''Command '' @ [CHR 0x27] @ name parsed
                   @ [CHR 0x27] @ '' execution failed: ''"], rule exI[of _ "[]"]) simp
  ultimately show "\<exists>res msg. execute_string hs r s ctx t0 t1 = Inr res \<and> \<not> success res \<and>
               error res = Some msg \<and> sublist (exc_str e) msg"
    by (simp add: failure_def)
qed

theorem handler_exception_containment_witness:
  "\<exists>res msg. execute_string (\<lambda>i as kw. Inl (PyExc ValueError ''boom''))
       (register_plain new_registry ''run'' (fn 0) []) ''/run'' None 0 1 = Inr res \<and>
     \<not> success res \<and> error res = Some msg \<and> sublist ''boom'' msg"
proof -
  have p: "parse_command_string ''/run'' =
      Inr (Some \<lparr>name = ''run'', args = [], kwargs = [], raw_input = ''/run''\<rparr>)"
    by (simp add: parse_eval)
  have g: "get_command (register_plain new_registry ''run'' (fn 0) []) ''run'' = Some 0"
    "store (register_plain new_registry ''run'' (fn 0) []) 0 =
       \<lparr>metadata = \<lparr>md_name = ''run'', description = ''d'', category = ''general'', aliases = [],
                parameters = [], examples = [], version = ''1.0.0'',
                author = ''spec-kit'', tags = [], requires_project = False,
                hidden = False, created_at = 0, updated_at = 0\<rparr>,
         handler = fn 0, module_path = ''m'', enabled = True\<rparr>"
    by (simp_all add: registry_eval)
  show ?thesis
    using handler_exception_containment[where hs = "\<lambda>i as kw. Inl (PyExc ValueError ''boom'')"
        and r = "register_plain new_registry ''run'' (fn 0) []" and s = "''/run''"
        and ctx = None and ?t0.0 = 0 and ?t1.0 = 1] p g
    by (simp add: validate_command_arguments_def)
qed

text \<open>
  C1, as stated, fails for an exception that does not derive from \<open>Exception\<close>: a
  handler that raises \<open>SystemExit\<close> (as \<open>sys.exit\<close> does) passes all three
  \<open>except Exception\<close> clauses, and \<open>execute_string\<close> raises it.
\<close>

theorem system_exit_counterexample:
  "execute_string (\<lambda>i as kw. Inl (PyExc SystemExit ''bye''))
     (register_plain new_registry ''run'' (fn 0) []) ''/run'' None 0 1
   = Inl (PyExc SystemExit ''bye'')"
  by (simp add: execute_string_def execute_parsed_command_def execute_command_def
      except_Exception_def validate_command_arguments_def parse_eval registry_eval)

section \<open>The agent registry: the envelope\<close>

text \<open>
  C8, as the code has it. When the name resolves to an agent instance that is true and
  \<open>execute\<close> returns, the envelope holds \<open>success = True\<close>, the result, the agent name
  and the time stamp; when \<open>execute\<close> raises an exception that derives from
  \<open>Exception\<close>, it holds \<open>success = False\<close>, the exception's message as the error, the
  agent name and the time stamp. When the name does not resolve, or resolves to an
  instance that is false, the envelope holds \<open>success = False\<close> and the error only.
\<close>

theorem execute_agent_envelope:
  "(get_agent ar nm = None \<or>
    (\<exists>a. get_agent ar nm = Some a \<and> agent_bool a = Inr False) \<longrightarrow>
      execute_agent ar nm inp now =
        Inr [(''success'', PBool False),
             (''error'', PStr (''Agent '' @ [CHR 0x22] @ nm @ [CHR 0x22] @ '' not found''))]) \<and>
   (\<forall>a res. get_agent ar nm = Some a \<and> agent_bool a = Inr True \<and>
            agent_execute a inp = Inr res \<longrightarrow>
      (\<exists>env. execute_agent ar nm inp now = Inr env \<and>
         map_of env ''success'' = Some (PBool True) \<and> map_of env ''result'' = Some res \<and>
         map_of env ''error'' = None \<and>
         map_of env ''agent'' = Some (PStr nm) \<and> map_of env ''timestamp'' = Some (PStr now))) \<and>
   (\<forall>a e. get_agent ar nm = Some a \<and> agent_bool a = Inr True \<and>
          agent_execute a inp = Inl e \<and> caught_by_except_Exception e \<longrightarrow>
      (\<exists>env. execute_agent ar nm inp now = Inr env \<and>
         map_of env ''success'' = Some (PBool False) \<and> map_of env ''result'' = None \<and>
         map_of env ''error'' = Some (PStr (exc_str e)) \<and>
         map_of env ''agent'' = Some (PStr nm) \<and> map_of env ''timestamp'' = Some (PStr now)))"
  by (auto simp: execute_agent_def not_agent_def not_found_envelope_def except_Exception_def)

theorem execute_agent_envelope_witness:
  "execute_agent \<lparr>agents = [(''ok'', \<lparr>agent_execute = (\<lambda>x. Inr x), agent_bool = Inr True\<rparr>),
       (''bad'', \<lparr>agent_execute = (\<lambda>x. Inl (PyExc ValueError ''boom'')), agent_bool = Inr True\<rparr>),
       (''empty'', \<lparr>agent_execute = (\<lambda>x. Inr x), agent_bool = Inr False\<rparr>)]\<rparr>
      ''empty'' (PInt 1) ''t''
     = Inr [(''success'', PBool False),
            (''error'', PStr (''Agent '' @ [CHR 0x22] @ ''empty'' @ [CHR 0x22] @ '' not found''))] \<and>
   (\<exists>env. execute_agent \<lparr>agents = [(''ok'', \<lparr>agent_execute = (\<lambda>x. Inr x), agent_bool = Inr True\<rparr>),
       (''bad'', \<lparr>agent_execute = (\<lambda>x. Inl (PyExc ValueError ''boom'')), agent_bool = Inr True\<rparr>),
       (''empty'', \<lparr>agent_execute = (\<lambda>x. Inr x), agent_bool = Inr False\<rparr>)]\<rparr>
      ''ok'' (PInt 1) ''t'' = Inr env \<and>
      map_of env ''success'' = Some (PBool True) \<and> map_of env ''result'' = Some (PInt 1) \<and>
      map_of env ''error'' = None \<and>
      map_of env ''agent'' = Some (PStr ''ok'') \<and> map_of env ''timestamp'' = Some (PStr ''t'')) \<and>
   (\<exists>env. execute_agent \<lparr>agents = [(''ok'', \<lparr>agent_execute = (\<lambda>x. Inr x), agent_bool = Inr True\<rparr>),
       (''bad'', \<lparr>agent_execute = (\<lambda>x. Inl (PyExc ValueError ''boom'')), agent_bool = Inr True\<rparr>),
       (''empty'', \<lparr>agent_execute = (\<lambda>x. Inr x), agent_bool = Inr False\<rparr>)]\<rparr>
      ''bad'' (PInt 1) ''t'' = Inr env \<and>
      map_of env ''success'' = Some (PBool False) \<and> map_of env ''result'' = None \<and>
      map_of env ''error'' = Some (PStr ''boom'') \<and>
      map_of env ''agent'' = Some (PStr ''bad'') \<and> map_of env ''timestamp'' = Some (PStr ''t''))"
proof -
  let ?ar = "\<lparr>agents = [(''ok'', \<lparr>agent_execute = (\<lambda>x. Inr x), agent_bool = Inr True\<rparr>),
       (''bad'', \<lparr>agent_execute = (\<lambda>x. Inl (PyExc ValueError ''boom'')), agent_bool = Inr True\<rparr>),
       (''empty'', \<lparr>agent_execute = (\<lambda>x. Inr x), agent_bool = Inr False\<rparr>)]\<rparr>"
  have g: "get_agent ?ar ''empty'' = Some \<lparr>agent_execute = (\<lambda>x. Inr x), agent_bool = Inr False\<rparr>"
    "get_agent ?ar ''ok'' = Some \<lparr>agent_execute = (\<lambda>x. Inr x), agent_bool = Inr True\<rparr>"
    "get_agent ?ar ''bad'' =
       Some \<lparr>agent_execute = (\<lambda>x. Inl (PyExc ValueError ''boom'')), agent_bool = Inr True\<rparr>"
    by (simp_all add: get_agent_def)
  have n: "execute_agent ?ar ''empty'' (PInt 1) ''t''
     = Inr [(''success'', PBool False),
            (''error'', PStr (''Agent '' @ [CHR 0x22] @ ''empty'' @ [CHR 0x22] @ '' not found''))]"
    using execute_agent_envelope[of ?ar "''empty''" "PInt 1" "''t''"] g(1) by simp
  have k: "\<exists>env. execute_agent ?ar ''ok'' (PInt 1) ''t'' = Inr env \<and>
      map_of env ''success'' = Some (PBool True) \<and> map_of env ''result'' = Some (PInt 1) \<and>
      map_of env ''error'' = None \<and>
      map_of env ''agent'' = Some (PStr ''ok'') \<and> map_of env ''timestamp'' = Some (PStr ''t'')"
    using execute_agent_envelope[of ?ar "''ok''" "PInt 1" "''t''"] g(2) by simp
  have b: "\<exists>env. execute_agent ?ar ''bad'' (PInt 1) ''t'' = Inr env \<and>
      map_of env ''success'' = Some (PBool False) \<and> map_of env ''result'' = None \<and>
      map_of env ''error'' = Some (PStr ''boom'') \<and>
      map_of env ''agent'' = Some (PStr ''bad'') \<and> map_of env ''timestamp'' = Some (PStr ''t'')"
    using execute_agent_envelope[of ?ar "''bad''" "PInt 1" "''t''"] g(3) by simp
  from n k b show ?thesis by blast
qed

text \<open>
  C8, as stated, fails for an unknown agent: the envelope has neither the key \<open>agent\<close>
  nor the key \<open>timestamp\<close>.
\<close>

theorem agent_not_found_counterexample:
  "execute_agent \<lparr>agents = []\<rparr> ''ghost'' (PDict []) ''2026-01-01T00:00:00''
     = Inr [(''success'', PBool False),
            (''error'', PStr (''Agent '' @ [CHR 0x22] @ ''ghost'' @ [CHR 0x22] @ '' not found''))] \<and>
   \<not> has_key [(''success'', PBool False),
              (''error'', PStr (''Agent '' @ [CHR 0x22] @ ''ghost'' @ [CHR 0x22] @ '' not found''))]
        ''agent'' \<and>
   \<not> has_key [(''success'', PBool False),
              (''error'', PStr (''Agent '' @ [CHR 0x22] @ ''ghost'' @ [CHR 0x22] @ '' not found''))]
        ''timestamp''"
  by (simp add: execute_agent_def get_agent_def not_agent_def not_found_envelope_def has_key_def)

text \<open>An exception of the agent that does not derive from \<open>Exception\<close> is raised to the caller.\<close>

lemma agent_system_exit:
  "execute_agent
     \<lparr>agents = [(''bad'', \<lparr>agent_execute = (\<lambda>x. Inl (PyExc SystemExit ''bye'')),
                           agent_bool = Inr True\<rparr>)]\<rparr>
      ''bad'' (PDict []) ''t'' = Inl (PyExc SystemExit ''bye'')"
  by (simp add: execute_agent_def get_agent_def not_agent_def except_Exception_def)

text \<open>The truth test stands outside the \<open>try\<close>: what it raises is raised to the caller.\<close>

lemma agent_truth_test_raises:
  "get_agent ar nm = Some a \<Longrightarrow> agent_bool a = Inl e \<Longrightarrow> execute_agent ar nm inp now = Inl e"
  by (simp add: execute_agent_def not_agent_def)

end
